(* ===== verification/Prelude.thy ===== *)
theory Prelude
  imports Main "HOL-Library.Word"
begin

text \<open>
  Shared vocabulary of the development. The program works on \<open>std::wstring\<close>, and
  on Windows \<open>wchar_t\<close> is a 16-bit UTF-16 code unit: a wide character is a
  \<open>16 word\<close> and a wide string a list of them. The ordering requirement that
  \<open>std::map\<close> places on its comparator (the C++ standard's \<^emph>\<open>Compare\<close>
  requirement: a strict weak ordering) is the predicate \<open>strict_weak_order\<close>;
  it is the interface between the comparator theory (which establishes it) and the
  container theory (which assumes it). The lemmas here are the facts about strict
  weak orderings and sorted lists that both sides share.
\<close>

type_synonym wchar = "16 word"
type_synonym wstring = "wchar list"

text \<open>\<open>L''abc''\<close> spells the wide literal \<^verbatim>\<open>L"abc"\<close>: each (ASCII) character widened to
  a 16-bit code unit. Code units beyond ASCII are appended as numerals, as the source
  writes \<^verbatim>\<open>\x00E9\<close>.\<close>

definition L :: "string \<Rightarrow> wstring" where
  "L s = map (\<lambda>c. word_of_nat (of_char c)) s"

text \<open>Two keys are equivalent for a comparator when neither is less than the other:
  this is how \<open>std::map\<close> decides that two keys are ``the same''.\<close>

definition incomparable :: "('a \<Rightarrow> 'a \<Rightarrow> bool) \<Rightarrow> 'a \<Rightarrow> 'a \<Rightarrow> bool" where
  "incomparable lt a b \<longleftrightarrow> \<not> lt a b \<and> \<not> lt b a"

definition strict_weak_order :: "('a \<Rightarrow> 'a \<Rightarrow> bool) \<Rightarrow> bool" where
  "strict_weak_order lt \<longleftrightarrow> irreflp lt \<and> transp lt \<and> transp (incomparable lt)"

text \<open>A sequence of entries is sorted for a comparator on their keys when each key is
  less than every later one; the in-order sequence of a binary search tree is such a
  sequence.\<close>

abbreviation sorted_keys :: "('k \<Rightarrow> 'k \<Rightarrow> bool) \<Rightarrow> ('k \<times> 'v) list \<Rightarrow> bool" where
  "sorted_keys lt xs \<equiv> sorted_wrt (\<lambda>x y. lt (fst x) (fst y)) xs"

named_theorems swo_facts "consequences of a strict weak ordering used by the container proofs"

lemma swo_irrefl [swo_facts]: "strict_weak_order lt \<Longrightarrow> \<not> lt a a"
  by (simp add: strict_weak_order_def irreflp_def)

lemma swo_trans [swo_facts]:
  "strict_weak_order lt \<Longrightarrow> lt a b \<Longrightarrow> lt b c \<Longrightarrow> lt a c"
  unfolding strict_weak_order_def by (meson transpD)

lemma swo_incomparable_trans [swo_facts]:
  "strict_weak_order lt \<Longrightarrow> incomparable lt a b \<Longrightarrow> incomparable lt b c \<Longrightarrow>
   incomparable lt a c"
  unfolding strict_weak_order_def by (meson transpD)

text \<open>A comparator that orders values by the lexicographic order of a key is a strict
  weak ordering, and two values are equivalent exactly when their keys are equal.\<close>

lemma lexordp_key_incomparable_iff:
  fixes f :: "'a \<Rightarrow> 'b::linorder list"
  shows "incomparable (\<lambda>a b. ord_class.lexordp (f a) (f b)) a b \<longleftrightarrow> f a = f b"
  using lexordp_linear [of "f a" "f b"] lexordp_irreflexive' [of "f a"]
  by (auto simp: incomparable_def)

lemma strict_weak_order_lexordp_key:
  fixes f :: "'a \<Rightarrow> 'b::linorder list"
  shows "strict_weak_order (\<lambda>a b. ord_class.lexordp (f a) (f b))"
  unfolding strict_weak_order_def
proof (intro conjI)
  show "irreflp (\<lambda>a b. ord_class.lexordp (f a) (f b))"
    by (simp add: irreflp_def lexordp_irreflexive')
  show "transp (\<lambda>a b. ord_class.lexordp (f a) (f b))"
    by (auto intro: transpI lexordp_trans)
  show "transp (incomparable (\<lambda>a b. ord_class.lexordp (f a) (f b)))"
    by (rule transpI) (simp add: lexordp_key_incomparable_iff)
qed

subsection \<open>Sorted entry lists\<close>

lemma sorted_keys_takeWhile_less:
  "x \<in> set (takeWhile (\<lambda>e. lt (fst e) k) xs) \<Longrightarrow> lt (fst x) k"
  by (induction xs) (auto split: if_splits)

lemma sorted_keys_dropWhile_head:
  "dropWhile (\<lambda>e. lt (fst e) k) xs = y # ys \<Longrightarrow> \<not> lt (fst y) k"
  by (induction xs) (auto split: if_splits)


lemma sorted_wrt_dropWhile: "sorted_wrt R xs \<Longrightarrow> sorted_wrt R (dropWhile P xs)"
  by (metis sorted_wrt_append takeWhile_dropWhile_id)

lemma find_append_None: "List.find P xs = None \<Longrightarrow> List.find P (xs @ ys) = List.find P ys"
  by (induction xs) (auto split: if_splits)

lemma find_append:
  "List.find P (xs @ ys) = (case List.find P xs of None \<Rightarrow> List.find P ys | Some x \<Rightarrow> Some x)"
  by (induction xs) auto

lemma find_Some_mem: "List.find P xs = Some x \<Longrightarrow> x \<in> set xs \<and> P x"
  by (induction xs) (auto split: if_splits)

lemma find_filter: "List.find P (filter Q xs) = List.find (\<lambda>x. Q x \<and> P x) xs"
  by (induction xs) auto

lemma sorted_wrt_irrefl_distinct: "(\<And>x. \<not> R x x) \<Longrightarrow> sorted_wrt R xs \<Longrightarrow> distinct xs"
  by (induction xs) auto

lemma dropWhile_append_not:
  "\<not> P x \<Longrightarrow> dropWhile P (xs @ x # ys) =
     (case dropWhile P xs of [] \<Rightarrow> x # ys | z # zs \<Rightarrow> z # zs @ x # ys)"
  by (induction xs) auto

lemma find_distinct_member:
  "distinct (map f xs) \<Longrightarrow> x \<in> set xs \<Longrightarrow> List.find (\<lambda>e. f e = f x) xs = Some x"
  by (induction xs) (auto simp: image_iff)

end
