(* ===== verification/Collation.thy ===== *)
theory Collation
  imports Prelude
begin

unbundle bit_operations_syntax

text \<open>
  The comparator of the program (CaseInsensitiveStringKeyMap.cpp, lines 28--55):
  \<open>CompareStringIgnoreCase\<close> wraps the Windows API \<open>CompareStringEx\<close>, and the
  function object \<open>StringIgnoreCaseLess\<close> turns its three-way result into the
  less-than predicate that \<open>std::map\<close> uses. \<open>CompareStringEx\<close> is the platform
  collation facility (spec section 6, not source of this repository); it is modelled
  from its documented contract: the strings are read up to their terminating
  \<^verbatim>\<open>L'\0'\<close> when the length is negative, \<open>NORM_IGNORECASE\<close> folds letter case
  through the invariant locale's case table, \<open>NORM_IGNORENONSPACE\<close> drops the accents of
  the precomposed Latin-1 letters, the result is one of
  \<open>CSTR_LESS_THAN\<close>, \<open>CSTR_EQUAL\<close>, \<open>CSTR_GREATER_THAN\<close> (1, 2, 3), and
  0 reports a failure (\<open>ERROR_INVALID_FLAGS\<close> for an unknown flag,
  \<open>ERROR_INVALID_PARAMETER\<close> for an unknown locale name). The collation order itself is
  the lexicographic order of the folded code units.
\<close>

subsection \<open>Constants of the Windows headers\<close>

abbreviation CSTR_LESS_THAN :: int where "CSTR_LESS_THAN \<equiv> 1"
abbreviation CSTR_EQUAL :: int where "CSTR_EQUAL \<equiv> 2"
abbreviation CSTR_GREATER_THAN :: int where "CSTR_GREATER_THAN \<equiv> 3"

abbreviation NORM_IGNORECASE :: "32 word" where "NORM_IGNORECASE \<equiv> 0x00000001"
abbreviation NORM_IGNORENONSPACE :: "32 word" where "NORM_IGNORENONSPACE \<equiv> 0x00000002"

text \<open>The flags \<open>CompareStringEx\<close> accepts; any other bit is \<open>ERROR_INVALID_FLAGS\<close>.\<close>

abbreviation COMPARE_STRING_VALID_FLAGS :: "32 word" where
  "COMPARE_STRING_VALID_FLAGS \<equiv> 0x0803103F"

text \<open>\<open>LOCALE_NAME_INVARIANT\<close> is the empty locale name \<^verbatim>\<open>L""\<close>.\<close>

abbreviation LOCALE_NAME_INVARIANT :: wstring where "LOCALE_NAME_INVARIANT \<equiv> L ''''"

text \<open>The locale names the model accepts: the invariant locale,
  \<open>LOCALE_NAME_SYSTEM_DEFAULT\<close>, and a few named locales (all compared with the invariant
  locale's table). Any other name is \<open>ERROR_INVALID_PARAMETER\<close>.\<close>

definition known_locales :: "wstring list" where
  "known_locales = [LOCALE_NAME_INVARIANT, L ''!x-sys-default-locale'', L ''en-US'', L ''en-GB'',
     L ''it-IT'', L ''fr-FR'', L ''de-DE'', L ''es-ES'']"

subsection \<open>The invariant locale's case table\<close>

text \<open>
  \<open>NORM_IGNORECASE\<close> compares the upper-case forms of the code units. The table
  holds the simple upper-case mappings of Basic Latin, Latin-1, Latin Extended-A, basic
  Greek and basic Cyrillic; every other code unit is its own upper-case form.
\<close>

definition case_fold :: "wchar \<Rightarrow> wchar" where
  "case_fold c =
    (if 0x61 \<le> c \<and> c \<le> 0x7A then c - 0x20
     else if 0xE0 \<le> c \<and> c \<le> 0xFE \<and> c \<noteq> 0xF7 then c - 0x20
     else if c = 0xFF then 0x178
     else if (0x100 \<le> c \<and> c \<le> 0x12F \<or> 0x132 \<le> c \<and> c \<le> 0x137 \<or> 0x14A \<le> c \<and> c \<le> 0x177)
             \<and> odd (unat c) then c - 1
     else if (0x139 \<le> c \<and> c \<le> 0x148 \<or> 0x179 \<le> c \<and> c \<le> 0x17E) \<and> even (unat c) then c - 1
     else if 0x3B1 \<le> c \<and> c \<le> 0x3C9 \<and> c \<noteq> 0x3C2 then c - 0x20
     else if c = 0x3C2 then 0x3A3
     else if 0x430 \<le> c \<and> c \<le> 0x44F then c - 0x20
     else if 0x450 \<le> c \<and> c \<le> 0x45F then c - 0x50
     else c)"

text \<open>
  \<open>NORM_IGNORENONSPACE\<close> ignores nonspacing marks: a precomposed Latin-1 letter with a
  diacritic compares as its base letter (its canonical decomposition without the combining
  mark). Letters without a decomposition (\<open>AE\<close>, \<open>O\<close> with stroke, thorn, sharp s)
  stay.
\<close>

definition latin1_base :: "wchar list" where
  "latin1_base =
     [0x41, 0x41, 0x41, 0x41, 0x41, 0x41, 0xC6, 0x43, 0x45, 0x45, 0x45, 0x45, 0x49, 0x49, 0x49, 0x49,
      0xD0, 0x4E, 0x4F, 0x4F, 0x4F, 0x4F, 0x4F, 0xD7, 0xD8, 0x55, 0x55, 0x55, 0x55, 0x59, 0xDE, 0xDF,
      0x61, 0x61, 0x61, 0x61, 0x61, 0x61, 0xE6, 0x63, 0x65, 0x65, 0x65, 0x65, 0x69, 0x69, 0x69, 0x69,
      0xF0, 0x6E, 0x6F, 0x6F, 0x6F, 0x6F, 0x6F, 0xF7, 0xF8, 0x75, 0x75, 0x75, 0x75, 0x79, 0xFE, 0x79]"

definition strip_nonspace :: "wchar \<Rightarrow> wchar" where
  "strip_nonspace c = (if 0xC0 \<le> c \<and> c \<le> 0xFF then latin1_base ! (unat c - 192) else c)"

subsection \<open>The platform collation facility\<close>

text \<open>
  \<^verbatim>\<open>int CompareStringEx(LPCWSTR lpLocaleName, DWORD dwCmpFlags,
                    LPCWCH lpString1, int cchCount1,
                    LPCWCH lpString2, int cchCount2, ...)\<close>
  A string argument is the buffer the pointer designates: the string's code units and
  its terminating \<^verbatim>\<open>L'\0'\<close>. A negative count means ``read up to the first
  \<^verbatim>\<open>L'\0'\<close>''; a count \<open>n \<ge> 0\<close> takes the first \<open>n\<close> code units. The model has
  the invariant locale's table only; it folds case for \<open>NORM_IGNORECASE\<close> and drops
  accents for \<open>NORM_IGNORENONSPACE\<close>; the other valid flags are accepted and not
  modelled.
\<close>

definition CompareStringEx ::
  "wstring \<Rightarrow> 32 word \<Rightarrow> wstring \<Rightarrow> int \<Rightarrow> wstring \<Rightarrow> int \<Rightarrow> int" where
  "CompareStringEx locale flags s1 n1 s2 n2 =
    (if flags AND NOT COMPARE_STRING_VALID_FLAGS \<noteq> 0 then 0
     else if locale \<notin> set known_locales then 0
     else
       let read = (\<lambda>s n. if n < 0 then takeWhile (\<lambda>c. c \<noteq> 0) s else take (nat n) s);
           strip = (if flags AND NORM_IGNORENONSPACE \<noteq> 0 then strip_nonspace else id);
           fold = (if flags AND NORM_IGNORECASE \<noteq> 0 then case_fold \<circ> strip else strip);
           a = map fold (read s1 n1);
           b = map fold (read s2 n2)
       in if ord_class.lexordp a b then CSTR_LESS_THAN
          else if a = b then CSTR_EQUAL
          else CSTR_GREATER_THAN)"

subsection \<open>The program's comparator\<close>

text \<open>\<open>CompareStringIgnoreCase(s1, s2)\<close> (lines 29--45): invariant locale,
  \<open>NORM_IGNORECASE\<close>, both strings passed by \<open>c_str()\<close> (the contents followed
  by the terminating \<^verbatim>\<open>L'\0'\<close>) with length \<open>-1\<close>.\<close>

definition CompareStringIgnoreCase :: "wstring \<Rightarrow> wstring \<Rightarrow> int" where
  "CompareStringIgnoreCase s1 s2 =
     CompareStringEx LOCALE_NAME_INVARIANT NORM_IGNORECASE (s1 @ [0]) (-1) (s2 @ [0]) (-1)"

text \<open>\<open>StringIgnoreCaseLess::operator()\<close> (lines 48--55).\<close>

definition StringIgnoreCaseLess :: "wstring \<Rightarrow> wstring \<Rightarrow> bool" where
  "StringIgnoreCaseLess s1 s2 \<longleftrightarrow> CompareStringIgnoreCase s1 s2 = CSTR_LESS_THAN"

subsection \<open>The key the comparator orders by\<close>

text \<open>What the comparator sees of a string: its code units up to the first
  \<^verbatim>\<open>L'\0'\<close>, case-folded. This is an abstraction of the model, not code.\<close>

definition ci_key :: "wstring \<Rightarrow> wstring" where
  "ci_key s = map case_fold (takeWhile (\<lambda>c. c \<noteq> 0) s)"

subsection \<open>The comparator orders by the folded key\<close>

lemma takeWhile_nonzero_c_str:
  "takeWhile (\<lambda>c. c \<noteq> 0) (s @ [0]) = takeWhile (\<lambda>c. (c::wchar) \<noteq> 0) s"
  by (induction s) auto

lemma CompareStringIgnoreCase_ci_key:
  "CompareStringIgnoreCase s1 s2 =
     (if ord_class.lexordp (ci_key s1) (ci_key s2) then CSTR_LESS_THAN
      else if ci_key s1 = ci_key s2 then CSTR_EQUAL else CSTR_GREATER_THAN)"
  by (simp add: CompareStringIgnoreCase_def CompareStringEx_def ci_key_def known_locales_def
      takeWhile_nonzero_c_str Let_def)

lemma StringIgnoreCaseLess_eq:
  "StringIgnoreCaseLess = (\<lambda>a b. ord_class.lexordp (ci_key a) (ci_key b))"
  by (simp add: fun_eq_iff StringIgnoreCaseLess_def CompareStringIgnoreCase_ci_key)

lemma CompareStringEx_invalid_flags:
  "flags AND NOT COMPARE_STRING_VALID_FLAGS \<noteq> 0 \<Longrightarrow>
   CompareStringEx locale flags s1 n1 s2 n2 = 0"
  by (simp add: CompareStringEx_def)

lemma ci_incomparable_iff: "incomparable StringIgnoreCaseLess a b \<longleftrightarrow> ci_key a = ci_key b"
  unfolding StringIgnoreCaseLess_eq by (rule lexordp_key_incomparable_iff)

lemma ci_key_split:
  "0 \<notin> set s \<Longrightarrow> x \<noteq> 0 \<Longrightarrow> ci_key (s @ x # t) = map case_fold s @ case_fold x # ci_key t"
  by (induction s) (auto simp: ci_key_def)

text \<open>The letters \<open>NORM_IGNORENONSPACE\<close> changes are Latin-1 letters; none of them is
  \<^verbatim>\<open>L'\0'\<close>, and case folding keeps each apart from its base letter and is idempotent on
  it.\<close>

lemma strip_nonspace_accented:
  assumes "strip_nonspace c \<noteq> c"
  shows "c \<noteq> 0 \<and> strip_nonspace c \<noteq> 0 \<and> case_fold c \<noteq> 0 \<and>
    case_fold (strip_nonspace c) \<noteq> case_fold c \<and> case_fold (case_fold c) = case_fold c"
proof -
  have "0xC0 \<le> c \<and> c \<le> 0xFF"
    using assms by (simp add: strip_nonspace_def split: if_splits)
  then have n: "unat c \<in> {192..<256}" by (simp add: word_le_nat_alt)
  have "list_all (\<lambda>n. strip_nonspace (word_of_nat n) \<noteq> (word_of_nat n :: wchar) \<longrightarrow>
      word_of_nat n \<noteq> (0 :: wchar) \<and> strip_nonspace (word_of_nat n) \<noteq> 0 \<and>
      case_fold (word_of_nat n) \<noteq> 0 \<and>
      case_fold (strip_nonspace (word_of_nat n)) \<noteq> case_fold (word_of_nat n) \<and>
      case_fold (case_fold (word_of_nat n)) = case_fold (word_of_nat n)) [192..<256]"
    by code_simp
  with n have "strip_nonspace (word_of_nat (unat c)) \<noteq> (word_of_nat (unat c) :: wchar) \<longrightarrow>
      word_of_nat (unat c) \<noteq> (0 :: wchar) \<and> strip_nonspace (word_of_nat (unat c)) \<noteq> 0 \<and>
      case_fold (word_of_nat (unat c)) \<noteq> 0 \<and>
      case_fold (strip_nonspace (word_of_nat (unat c))) \<noteq> case_fold (word_of_nat (unat c)) \<and>
      case_fold (case_fold (word_of_nat (unat c))) = case_fold (word_of_nat (unat c))"
    unfolding list_all_iff set_upt by blast
  with assms show ?thesis by simp
qed

text \<open>C2: \<open>StringIgnoreCaseLess\<close> is a strict weak ordering (irreflexive, transitive, and
  with transitive equivalence), the requirement \<open>std::map\<close> places on its comparator.\<close>

theorem StringIgnoreCaseLess_strict_weak_order: "strict_weak_order StringIgnoreCaseLess"
  unfolding StringIgnoreCaseLess_eq by (rule strict_weak_order_lexordp_key)

text \<open>C6: the comparator is the lexicographic order of the case-folded code units read up to
  the first \<^verbatim>\<open>L'\0'\<close>.\<close>

theorem StringIgnoreCaseLess_iff_ci_key:
  "StringIgnoreCaseLess s1 s2 \<longleftrightarrow> ord_class.lexordp (ci_key s1) (ci_key s2)"
  by (simp add: StringIgnoreCaseLess_eq)

text \<open>C7: two strings are equivalent for the map (neither is less than the other) exactly
  when \<open>CompareStringIgnoreCase\<close> reports them equal, exactly when their folded keys are
  equal.\<close>

theorem StringIgnoreCaseLess_equivalent_iff:
  "(incomparable StringIgnoreCaseLess s1 s2 \<longleftrightarrow> ci_key s1 = ci_key s2) \<and>
   (CompareStringIgnoreCase s1 s2 = CSTR_EQUAL \<longleftrightarrow> ci_key s1 = ci_key s2)"
proof
  show "incomparable StringIgnoreCaseLess s1 s2 \<longleftrightarrow> ci_key s1 = ci_key s2"
    by (rule ci_incomparable_iff)
  show "CompareStringIgnoreCase s1 s2 = CSTR_EQUAL \<longleftrightarrow> ci_key s1 = ci_key s2"
    by (simp add: CompareStringIgnoreCase_ci_key lexordp_irreflexive')
qed

text \<open>C18: with the locale and the flags the wrapper passes, \<open>CompareStringEx\<close> takes
  neither of its failure paths (an unknown flag, an unknown locale name):
  \<open>CompareStringIgnoreCase\<close> returns one of the three comparison results and never 0.\<close>

theorem CompareStringIgnoreCase_never_fails:
  "CompareStringIgnoreCase s1 s2 \<in> {CSTR_LESS_THAN, CSTR_EQUAL, CSTR_GREATER_THAN}"
  by (simp add: CompareStringIgnoreCase_ci_key)

text \<open>C16: the comparator reads its arguments through \<open>c_str()\<close> with length -1, so it
  stops at the first embedded \<^verbatim>\<open>L'\0'\<close>: two strings that agree up to their first
  \<^verbatim>\<open>L'\0'\<close> are equivalent keys, whatever follows.\<close>

theorem StringIgnoreCaseLess_stops_at_nul:
  assumes "takeWhile (\<lambda>c. c \<noteq> 0) s1 = takeWhile (\<lambda>c. c \<noteq> 0) s2"
  shows "incomparable StringIgnoreCaseLess s1 s2"
  using assms lexordp_irreflexive'
  by (simp add: incomparable_def StringIgnoreCaseLess_eq ci_key_def)

theorem StringIgnoreCaseLess_stops_at_nul_witness:
  "takeWhile (\<lambda>c. c \<noteq> 0) (L ''key'' @ [0] @ L ''one'') = takeWhile (\<lambda>c. c \<noteq> 0) (L ''key'' @ [0] @ L ''two'')
   \<and> incomparable StringIgnoreCaseLess (L ''key'' @ [0] @ L ''one'') (L ''key'' @ [0] @ L ''two'')"
proof -
  have h: "takeWhile (\<lambda>c. c \<noteq> 0) (L ''key'' @ [0] @ L ''one'') =
           takeWhile (\<lambda>c. c \<noteq> 0) (L ''key'' @ [0] @ L ''two'')"
    by (simp add: L_def)
  show ?thesis using h StringIgnoreCaseLess_stops_at_nul [OF h] by simp
qed

text \<open>C17: \<open>NORM_IGNORECASE\<close> folds case only, accents stay significant: replacing
  a letter with a diacritic (\<^verbatim>\<open>L'\x00E9'\<close> and the other precomposed Latin-1 letters)
  by its base letter gives a different key, while replacing it by its case variant gives an
  equivalent one. So \<^verbatim>\<open>L"perche"\<close> is not the key \<^verbatim>\<open>L"perch\x00E9"\<close>, but
  \<^verbatim>\<open>L"perch\x00C9"\<close> is.\<close>

theorem accent_is_significant:
  assumes acc: "strip_nonspace c \<noteq> c" and s: "0 \<notin> set s"
  shows "\<not> incomparable StringIgnoreCaseLess (s @ strip_nonspace c # t) (s @ c # t) \<and>
    incomparable StringIgnoreCaseLess (s @ case_fold c # t) (s @ c # t)"
  using strip_nonspace_accented [OF acc] s
  by (simp add: ci_incomparable_iff ci_key_split)

theorem accent_is_significant_witness:
  "strip_nonspace 0xE9 \<noteq> 0xE9 \<and> 0 \<notin> set (L ''perch'') \<and>
   \<not> incomparable StringIgnoreCaseLess (L ''perch'' @ [strip_nonspace 0xE9]) (L ''perch'' @ [0xE9]) \<and>
   incomparable StringIgnoreCaseLess (L ''perch'' @ [case_fold 0xE9]) (L ''perch'' @ [0xE9])"
proof -
  have h: "strip_nonspace 0xE9 \<noteq> 0xE9" "0 \<notin> set (L ''perch'')"
    by (simp_all add: strip_nonspace_def latin1_base_def L_def)
  show ?thesis using h accent_is_significant [OF h, of "[]"] by simp
qed

end
