(* ===== verification/StdMap.thy ===== *)
theory StdMap
  imports Prelude
begin

text \<open>
  The container the program instantiates: \<open>std::map<Key, Value, Compare>\<close> of the
  C++ standard library (not source of this repository; modelled from the standard's
  contract for associative containers with unique keys and from the way libstdc++'s
  red-black tree implements it). A map object holds its comparator object
  (\<open>key_comp()\<close>) and its nodes; the nodes are modelled by their in-order
  sequence, which is what every operation below observes. All lookups start from
  \<open>lower_bound\<close>, the first entry whose key is not less than the searched key, and
  decide ``found'' as libstdc++ does: the entry exists and the searched key is not less
  than its key. The generic lemmas assume only that the comparator is a strict weak
  ordering (the C++ \<^emph>\<open>Compare\<close> requirement); the program's comparator discharges
  that assumption in the theory CIMap.
\<close>

record ('k, 'v) std_map =
  key_comp :: "'k \<Rightarrow> 'k \<Rightarrow> bool"
  tree :: "('k \<times> 'v) list"

text \<open>\<open>_M_lower_bound\<close>: split the in-order sequence before the first entry whose key is
  not less than \<open>k\<close>; the second part starts at the iterator \<open>lower_bound(k)\<close>.\<close>

fun lower_bound :: "('k \<Rightarrow> 'k \<Rightarrow> bool) \<Rightarrow> 'k \<Rightarrow> ('k \<times> 'v) list \<Rightarrow>
    ('k \<times> 'v) list \<times> ('k \<times> 'v) list" where
  "lower_bound lt k [] = ([], [])"
| "lower_bound lt k (e # es) =
     (if lt (fst e) k then (case lower_bound lt k es of (pre, suf) \<Rightarrow> (e # pre, suf))
      else ([], e # es))"

text \<open>\<open>find(k)\<close>: \<^verbatim>\<open>j = lower_bound(k); return (j == end() || comp(k, j->first)) ? end() : j;\<close>
  The iterator is modelled by the entry it designates, \<open>end()\<close> by \<open>None\<close>.\<close>

definition map_find :: "'k \<Rightarrow> ('k, 'v) std_map \<Rightarrow> ('k \<times> 'v) option" where
  "map_find k m =
     (let lt = key_comp m; suf = snd (lower_bound lt k (tree m))
      in if suf = [] \<or> lt k (fst (hd suf)) then None else Some (hd suf))"

text \<open>\<open>operator[](k)\<close>: \<^verbatim>\<open>i = lower_bound(k); if (i == end() || key_comp()(k, (*i).first))
  i = emplace_hint(i, k, Value()); return (*i).second;\<close> The default-constructed value
  \<open>Value()\<close> is the parameter \<open>dflt\<close>; the result is the updated map and the value
  the returned reference designates.\<close>

definition map_subscript :: "'v \<Rightarrow> 'k \<Rightarrow> ('k, 'v) std_map \<Rightarrow> ('k, 'v) std_map \<times> 'v" where
  "map_subscript dflt k m =
     (let lt = key_comp m; (pre, suf) = lower_bound lt k (tree m)
      in if suf = [] \<or> lt k (fst (hd suf)) then (m\<lparr>tree := pre @ (k, dflt) # suf\<rparr>, dflt)
         else (m, snd (hd suf)))"

text \<open>\<open>insert(value_type)\<close> (\<open>_M_insert_unique\<close>): no insertion when an equivalent key is
  present; the flag of the returned pair says whether the entry was inserted.\<close>

definition map_insert :: "'k \<times> 'v \<Rightarrow> ('k, 'v) std_map \<Rightarrow> ('k, 'v) std_map \<times> bool" where
  "map_insert e m =
     (let lt = key_comp m; (pre, suf) = lower_bound lt (fst e) (tree m)
      in if suf = [] \<or> lt (fst e) (fst (hd suf)) then (m\<lparr>tree := pre @ e # suf\<rparr>, True)
         else (m, False))"

text \<open>\<open>erase(k)\<close>: erase the range \<open>equal_range(k)\<close>, from \<open>lower_bound(k)\<close> to
  \<open>upper_bound(k)\<close> (the first entry whose key is greater than \<open>k\<close>), and return the
  number of erased entries.\<close>

definition map_erase :: "'k \<Rightarrow> ('k, 'v) std_map \<Rightarrow> ('k, 'v) std_map \<times> nat" where
  "map_erase k m =
     (let lt = key_comp m; (pre, suf) = lower_bound lt k (tree m);
          rest = dropWhile (\<lambda>e. \<not> lt k (fst e)) suf
      in (m\<lparr>tree := pre @ rest\<rparr>, length suf - length rest))"

text \<open>\<open>_M_insert_range_unique(first, last)\<close>: the entries inserted one after the other,
  as \<open>insert\<close> does; the initializer-list constructor is this range insertion into the
  empty map with the given comparator.\<close>

definition map_insert_range :: "('k \<times> 'v) list \<Rightarrow> ('k, 'v) std_map \<Rightarrow> ('k, 'v) std_map" where
  "map_insert_range es m = foldl (\<lambda>m e. fst (map_insert e m)) m es"

text \<open>The container's invariant: the in-order sequence is sorted by the comparator.\<close>

definition map_invar :: "('k, 'v) std_map \<Rightarrow> bool" where
  "map_invar m \<longleftrightarrow> sorted_keys (key_comp m) (tree m)"

subsection \<open>Lookup\<close>

lemma lower_bound_eq:
  "lower_bound lt k es = (takeWhile (\<lambda>e. lt (fst e) k) es, dropWhile (\<lambda>e. lt (fst e) k) es)"
  by (induction es) auto

text \<open>In a sorted sequence, no entry after the lower bound of \<open>k\<close> has a key less than \<open>k\<close>.\<close>

lemma dropWhile_not_less:
  assumes "strict_weak_order lt" "sorted_keys lt es" "e \<in> set (dropWhile (\<lambda>e. lt (fst e) k) es)"
  shows "\<not> lt (fst e) k"
proof -
  obtain y ys where d: "dropWhile (\<lambda>e. lt (fst e) k) es = y # ys"
    using assms(3) by (cases "dropWhile (\<lambda>e. lt (fst e) k) es") auto
  have y: "\<not> lt (fst y) k" using d by (rule sorted_keys_dropWhile_head)
  have "sorted_keys lt (y # ys)"
    using sorted_wrt_dropWhile [OF assms(2)] d by metis
  then show ?thesis using assms(1,3) d y by (auto dest: swo_facts)
qed

lemma sorted_keys_all_greater:
  assumes "strict_weak_order lt" "sorted_keys lt suf" "suf \<noteq> []" "lt k (fst (hd suf))"
  shows "\<forall>e \<in> set suf. lt k (fst e)"
  using assms by (cases suf) (auto dest: swo_facts)

lemma sorted_keys_insert_between:
  assumes "sorted_keys lt (pre @ suf)" "\<forall>e \<in> set pre. lt (fst e) k" "\<forall>e \<in> set suf. lt k (fst e)"
  shows "sorted_keys lt (pre @ (k, v) # suf)"
  using assms by (auto simp: sorted_wrt_append)

lemma map_find_eq_find:
  assumes "strict_weak_order (key_comp m)" "map_invar m"
  shows "map_find k m = List.find (\<lambda>e. incomparable (key_comp m) k (fst e)) (tree m)"
proof -
  let ?lt = "key_comp m" and ?P = "\<lambda>e. key_comp m (fst e) k"
  let ?pre = "takeWhile ?P (tree m)" and ?suf = "dropWhile ?P (tree m)"
  have pre: "List.find (\<lambda>e. incomparable ?lt k (fst e)) ?pre = None"
    by (auto simp: find_None_iff incomparable_def dest: sorted_keys_takeWhile_less)
  have sorted_suf: "sorted_keys ?lt ?suf"
    using assms(2) by (simp add: map_invar_def sorted_wrt_dropWhile)
  have "List.find (\<lambda>e. incomparable ?lt k (fst e)) (tree m) =
        List.find (\<lambda>e. incomparable ?lt k (fst e)) ?suf"
    using find_append_None [OF pre, of ?suf] by simp
  also have "\<dots> = map_find k m"
  proof (cases ?suf)
    case Nil
    show ?thesis unfolding map_find_def lower_bound_eq Let_def snd_conv Nil by simp
  next
    case (Cons y ys)
    have ny: "\<not> ?lt (fst y) k" using Cons by (rule sorted_keys_dropWhile_head)
    show ?thesis
    proof (cases "?lt k (fst y)")
      case True
      then have "\<forall>e \<in> set ?suf. ?lt k (fst e)"
        using sorted_keys_all_greater [OF assms(1) sorted_suf] Cons by simp
      then have "List.find (\<lambda>e. incomparable ?lt k (fst e)) ?suf = None"
        by (auto simp: find_None_iff incomparable_def)
      with True Cons show ?thesis by (simp add: map_find_def lower_bound_eq)
    next
      case False
      show ?thesis
        unfolding map_find_def lower_bound_eq Let_def snd_conv Cons
        using False ny by (simp add: incomparable_def)
    qed
  qed
  finally show ?thesis by simp
qed

subsection \<open>Insertion\<close>

lemma map_find_lower_bound:
  "lower_bound (key_comp m) k (tree m) = (pre, suf) \<Longrightarrow>
   map_find k m = (if suf = [] \<or> key_comp m k (fst (hd suf)) then None else Some (hd suf))"
  by (simp add: map_find_def)

lemma map_subscript_lower_bound:
  "lower_bound (key_comp m) k (tree m) = (pre, suf) \<Longrightarrow>
   map_subscript d k m =
     (if suf = [] \<or> key_comp m k (fst (hd suf)) then (m\<lparr>tree := pre @ (k, d) # suf\<rparr>, d)
      else (m, snd (hd suf)))"
  by (simp add: map_subscript_def)

lemma map_insert_lower_bound:
  "lower_bound (key_comp m) (fst e) (tree m) = (pre, suf) \<Longrightarrow>
   map_insert e m =
     (if suf = [] \<or> key_comp m (fst e) (fst (hd suf)) then (m\<lparr>tree := pre @ e # suf\<rparr>, True)
      else (m, False))"
  by (simp add: map_insert_def)

lemma map_subscript_found: "map_find k m = Some e \<Longrightarrow> map_subscript d k m = (m, snd e)"
proof -
  obtain pre suf where lb: "lower_bound (key_comp m) k (tree m) = (pre, suf)"
    by (cases "lower_bound (key_comp m) k (tree m)")
  assume "map_find k m = Some e"
  then show ?thesis
    unfolding map_find_lower_bound [OF lb] map_subscript_lower_bound [OF lb]
    by (simp split: if_splits)
qed

lemma map_subscript_absent:
  assumes lb: "lower_bound (key_comp m) k (tree m) = (pre, suf)" and none: "map_find k m = None"
  shows "map_subscript d k m = (m\<lparr>tree := pre @ (k, d) # suf\<rparr>, d)"
  using none unfolding map_find_lower_bound [OF lb] map_subscript_lower_bound [OF lb]
  by (auto split: if_splits)

lemma map_insert_found: "map_find (fst e) m = Some e' \<Longrightarrow> map_insert e m = (m, False)"
proof -
  obtain pre suf where lb: "lower_bound (key_comp m) (fst e) (tree m) = (pre, suf)"
    by (cases "lower_bound (key_comp m) (fst e) (tree m)")
  assume "map_find (fst e) m = Some e'"
  then show ?thesis
    unfolding map_find_lower_bound [OF lb] map_insert_lower_bound [OF lb]
    by (simp split: if_splits)
qed

lemma map_insert_absent:
  assumes lb: "lower_bound (key_comp m) (fst e) (tree m) = (pre, suf)"
    and none: "map_find (fst e) m = None"
  shows "map_insert e m = (m\<lparr>tree := pre @ e # suf\<rparr>, True)"
  using none unfolding map_find_lower_bound [OF lb] map_insert_lower_bound [OF lb]
  by (auto split: if_splits)

text \<open>Inserting at the lower bound of an absent key keeps the sequence sorted.\<close>

lemma sorted_insert_at_lower_bound:
  assumes swo: "strict_weak_order (key_comp m)" and inv: "map_invar m"
    and lb: "lower_bound (key_comp m) k (tree m) = (pre, suf)" and none: "map_find k m = None"
  shows "sorted_keys (key_comp m) (pre @ (k, v) # suf)"
proof (rule sorted_keys_insert_between)
  have pre: "pre = takeWhile (\<lambda>e. key_comp m (fst e) k) (tree m)"
    and suf: "suf = dropWhile (\<lambda>e. key_comp m (fst e) k) (tree m)"
    using lb by (simp_all add: lower_bound_eq)
  show "sorted_keys (key_comp m) (pre @ suf)"
    using inv by (simp add: map_invar_def pre suf)
  show "\<forall>e\<in>set pre. key_comp m (fst e) k"
    unfolding pre by (auto dest: sorted_keys_takeWhile_less)
  have sorted: "sorted_keys (key_comp m) suf"
    using inv by (simp add: map_invar_def suf sorted_wrt_dropWhile)
  show "\<forall>e\<in>set suf. key_comp m k (fst e)"
  proof (cases "suf = []")
    case True
    then show ?thesis by simp
  next
    case False
    with none have "key_comp m k (fst (hd suf))"
      by (simp add: map_find_lower_bound [OF lb] split: if_splits)
    with sorted False show ?thesis by (rule sorted_keys_all_greater [OF swo])
  qed
qed

lemma map_subscript_invar:
  assumes "strict_weak_order (key_comp m)" "map_invar m"
  shows "map_invar (fst (map_subscript d k m))"
proof -
  obtain pre suf where lb: "lower_bound (key_comp m) k (tree m) = (pre, suf)"
    by (cases "lower_bound (key_comp m) k (tree m)")
  show ?thesis
  proof (cases "map_find k m")
    case None
    then show ?thesis
      using sorted_insert_at_lower_bound [OF assms lb None]
      by (simp add: map_subscript_absent [OF lb None] map_invar_def)
  next
    case (Some e)
    then show ?thesis using assms(2) by (simp add: map_subscript_found)
  qed
qed

lemma map_insert_invar:
  assumes "strict_weak_order (key_comp m)" "map_invar m"
  shows "map_invar (fst (map_insert e m))"
proof -
  obtain pre suf where lb: "lower_bound (key_comp m) (fst e) (tree m) = (pre, suf)"
    by (cases "lower_bound (key_comp m) (fst e) (tree m)")
  show ?thesis
  proof (cases "map_find (fst e) m")
    case None
    then show ?thesis
      using sorted_insert_at_lower_bound [OF assms lb None, of "snd e"]
      by (simp add: map_insert_absent [OF lb None] map_invar_def)
  next
    case (Some e')
    then show ?thesis using assms(2) by (simp add: map_insert_found)
  qed
qed

text \<open>\<open>operator[]\<close> changes the map exactly as \<open>insert\<close> of the pair with the
  default value would, and grows it by one entry exactly when the key is absent.\<close>

lemma map_subscript_insert:
  "fst (map_subscript d k m) = fst (map_insert (k, d) m) \<and>
   snd (map_subscript d k m) = (case map_find k m of None \<Rightarrow> d | Some e \<Rightarrow> snd e)"
proof -
  obtain pre suf where lb: "lower_bound (key_comp m) k (tree m) = (pre, suf)"
    by (cases "lower_bound (key_comp m) k (tree m)")
  then have lb': "lower_bound (key_comp m) (fst (k, d)) (tree m) = (pre, suf)" by simp
  show ?thesis
    unfolding map_subscript_lower_bound [OF lb] map_insert_lower_bound [OF lb'] map_find_lower_bound [OF lb]
    by simp
qed

lemma map_subscript_length:
  "length (tree (fst (map_subscript d k m))) = length (tree m) + (if map_find k m = None then 1 else 0)"
proof -
  obtain pre suf where lb: "lower_bound (key_comp m) k (tree m) = (pre, suf)"
    by (cases "lower_bound (key_comp m) k (tree m)")
  then have "tree m = pre @ suf" by (auto simp: lower_bound_eq)
  then show ?thesis
    unfolding map_subscript_lower_bound [OF lb] map_find_lower_bound [OF lb] by simp
qed

lemma key_comp_map_insert [simp]: "key_comp (fst (map_insert e m)) = key_comp m"
  by (simp add: map_insert_def Let_def split: prod.splits)

lemma key_comp_map_subscript [simp]: "key_comp (fst (map_subscript d k m)) = key_comp m"
  by (simp add: map_subscript_def Let_def split: prod.splits)

lemma key_comp_map_erase [simp]: "key_comp (fst (map_erase k m)) = key_comp m"
  by (simp add: map_erase_def Let_def split: prod.splits)

lemma key_comp_map_insert_range [simp]: "key_comp (map_insert_range es m) = key_comp m"
  by (induction es arbitrary: m) (simp_all add: map_insert_range_def)

lemma map_insert_range_invar:
  "strict_weak_order (key_comp m) \<Longrightarrow> map_invar m \<Longrightarrow> map_invar (map_insert_range es m)"
proof (induction es arbitrary: m)
  case Nil
  then show ?case by (simp add: map_insert_range_def)
next
  case (Cons e es)
  have "map_invar (fst (map_insert e m))" using Cons.prems by (rule map_insert_invar)
  with Cons.prems Cons.IH [of "fst (map_insert e m)"] show ?case
    by (simp add: map_insert_range_def)
qed

subsection \<open>Erasure\<close>

text \<open>In a sorted sequence the entries whose key is greater than \<open>k\<close> form a suffix, so
  skipping the others is filtering them.\<close>

lemma dropWhile_not_greater_filter:
  assumes "strict_weak_order lt" "sorted_keys lt xs"
  shows "dropWhile (\<lambda>e. \<not> lt k (fst e)) xs = filter (\<lambda>e. lt k (fst e)) xs"
  using assms(2)
proof (induction xs)
  case Nil
  then show ?case by simp
next
  case (Cons y ys)
  show ?case
  proof (cases "lt k (fst y)")
    case True
    then have "\<forall>e \<in> set ys. lt k (fst e)"
      using Cons.prems assms(1) by (auto dest: swo_facts)
    with True show ?thesis by simp
  next
    case False
    with Cons show ?thesis by simp
  qed
qed

lemma lower_bound_parts:
  assumes "strict_weak_order lt" "sorted_keys lt es" "lower_bound lt k es = (pre, suf)"
  shows "es = pre @ suf" "\<forall>e \<in> set pre. lt (fst e) k" "\<forall>e \<in> set suf. \<not> lt (fst e) k"
    "sorted_keys lt suf"
proof -
  have pre: "pre = takeWhile (\<lambda>e. lt (fst e) k) es"
    and suf: "suf = dropWhile (\<lambda>e. lt (fst e) k) es"
    using assms(3) by (simp_all add: lower_bound_eq)
  show "es = pre @ suf" by (simp add: pre suf)
  show "\<forall>e \<in> set pre. lt (fst e) k" unfolding pre by (auto dest: sorted_keys_takeWhile_less)
  show "\<forall>e \<in> set suf. \<not> lt (fst e) k"
    unfolding suf using dropWhile_not_less [OF assms(1,2)] by blast
  show "sorted_keys lt suf" unfolding suf using assms(2) by (rule sorted_wrt_dropWhile)
qed

lemma map_erase_lower_bound:
  "lower_bound (key_comp m) k (tree m) = (pre, suf) \<Longrightarrow>
   map_erase k m = (let rest = dropWhile (\<lambda>e. \<not> key_comp m k (fst e)) suf
                    in (m\<lparr>tree := pre @ rest\<rparr>, length suf - length rest))"
  by (simp add: map_erase_def)

lemma map_erase_tree:
  assumes swo: "strict_weak_order (key_comp m)" and inv: "map_invar m"
  shows "tree (fst (map_erase k m)) = filter (\<lambda>e. \<not> incomparable (key_comp m) k (fst e)) (tree m)"
proof -
  let ?lt = "key_comp m"
  obtain pre suf where lb: "lower_bound ?lt k (tree m) = (pre, suf)"
    by (cases "lower_bound ?lt k (tree m)")
  note parts = lower_bound_parts [OF swo inv [unfolded map_invar_def] lb]
  have "filter (\<lambda>e. \<not> incomparable ?lt k (fst e)) pre = pre"
    using parts(2) by (auto simp: incomparable_def intro: filter_True)
  moreover have "filter (\<lambda>e. \<not> incomparable ?lt k (fst e)) suf = filter (\<lambda>e. ?lt k (fst e)) suf"
    using parts(3) by (auto simp: incomparable_def intro!: filter_cong)
  ultimately have "filter (\<lambda>e. \<not> incomparable ?lt k (fst e)) (tree m) =
                   pre @ dropWhile (\<lambda>e. \<not> ?lt k (fst e)) suf"
    using dropWhile_not_greater_filter [OF swo parts(4), of k] parts(1) by simp
  then show ?thesis by (simp add: map_erase_lower_bound [OF lb] Let_def)
qed

lemma map_erase_count:
  assumes swo: "strict_weak_order (key_comp m)" and inv: "map_invar m"
  shows "snd (map_erase k m) = (if map_find k m = None then 0 else 1)"
proof -
  let ?lt = "key_comp m"
  obtain pre suf where lb: "lower_bound ?lt k (tree m) = (pre, suf)"
    by (cases "lower_bound ?lt k (tree m)")
  note parts = lower_bound_parts [OF swo inv [unfolded map_invar_def] lb]
  have count: "snd (map_erase k m) = length (filter (\<lambda>e. \<not> ?lt k (fst e)) suf)"
    using sum_length_filter_compl [of "\<lambda>e. ?lt k (fst e)" suf]
    by (simp add: map_erase_lower_bound [OF lb] Let_def dropWhile_not_greater_filter [OF swo parts(4)])
  show ?thesis
  proof (cases suf)
    case Nil
    then show ?thesis using count by (simp add: map_find_lower_bound [OF lb])
  next
    case (Cons y ys)
    have ys: "sorted_keys ?lt (y # ys)" using parts(4) Cons by simp
    have ny: "\<not> ?lt (fst y) k" using parts(3) Cons by simp
    show ?thesis
    proof (cases "?lt k (fst y)")
      case True
      then have "\<forall>e \<in> set (y # ys). ?lt k (fst e)"
        using sorted_keys_all_greater [OF swo ys] by simp
      then show ?thesis
        using count Cons True by (simp add: map_find_lower_bound [OF lb])
    next
      case False
      have "\<forall>e \<in> set ys. ?lt k (fst e)"
      proof
        fix e assume e: "e \<in> set ys"
        then have ye: "?lt (fst y) (fst e)" using ys by simp
        have "\<not> ?lt (fst e) k" using parts(3) e Cons by simp
        moreover have "incomparable ?lt (fst y) k" using False ny by (simp add: incomparable_def)
        ultimately show "?lt k (fst e)"
          using ye swo_incomparable_trans [OF swo, of "fst y" k "fst e"]
          by (auto simp: incomparable_def swo_irrefl [OF swo])
      qed
      then show ?thesis
        using count Cons False by (simp add: map_find_lower_bound [OF lb])
    qed
  qed
qed

lemma map_erase_invar:
  assumes "strict_weak_order (key_comp m)" "map_invar m"
  shows "map_invar (fst (map_erase k m))"
  using assms(2) by (simp add: map_erase_tree [OF assms] map_invar_def sorted_wrt_filter)

end
