(* ===== verification/CIMap.thy ===== *)
theory CIMap
  imports Collation StdMap
begin

text \<open>
  The alias \<open>CaseInsensitiveStringMap<Value>\<close> (lines 57--59) is
  \<open>std::map<std::wstring, Value, StringIgnoreCaseLess>\<close>: the container of StdMap with
  the comparator of Collation. A default-constructed object of that type is the empty
  map holding a \<open>StringIgnoreCaseLess\<close> object. The theory connects the two: the
  comparator discharges the strict-weak-ordering assumption of the container lemmas, and
  the container is shown to implement an ordinary finite map from case-folded keys to the
  stored entry (\<open>ci_abs\<close>), which keeps the key spelling first stored under that folded key.
\<close>

definition CaseInsensitiveStringMap :: "(wstring, 'v) std_map" where
  "CaseInsensitiveStringMap = \<lparr>key_comp = StringIgnoreCaseLess, tree = []\<rparr>"

text \<open>The invariant of a map of the alias type: its comparator is \<open>StringIgnoreCaseLess\<close>
  and its entries are sorted by it.\<close>

definition ci_wf :: "(wstring, 'v) std_map \<Rightarrow> bool" where
  "ci_wf m \<longleftrightarrow> key_comp m = StringIgnoreCaseLess \<and> map_invar m"

text \<open>The abstract map: a folded key is mapped to the first entry stored under it.\<close>

definition ci_abs :: "(wstring, 'v) std_map \<Rightarrow> wstring \<Rightarrow> (wstring \<times> 'v) option" where
  "ci_abs m x = List.find (\<lambda>e. ci_key (fst e) = x) (tree m)"

subsection \<open>The comparator meets the container's requirement\<close>

lemma ci_wf_swo: "ci_wf m \<Longrightarrow> strict_weak_order (key_comp m)"
  unfolding ci_wf_def StringIgnoreCaseLess_eq by (simp add: strict_weak_order_lexordp_key)

lemma ci_wf_map_invar: "ci_wf m \<Longrightarrow> map_invar m"
  by (simp add: ci_wf_def)

lemma ci_map_find_find:
  "ci_wf m \<Longrightarrow> map_find k m = List.find (\<lambda>e. ci_key (fst e) = ci_key k) (tree m)"
proof -
  assume wf: "ci_wf m"
  have eq: "(\<lambda>e. incomparable (key_comp m) k (fst e)) = (\<lambda>e. ci_key (fst e) = ci_key k)"
    using wf by (auto simp: ci_wf_def ci_incomparable_iff)
  show ?thesis unfolding map_find_eq_find [OF ci_wf_swo [OF wf] ci_wf_map_invar [OF wf]] eq ..
qed

lemma map_find_ci_abs: "ci_wf m \<Longrightarrow> map_find k m = ci_abs m (ci_key k)"
  by (simp add: ci_map_find_find ci_abs_def)

lemma ci_wf_subscript: "ci_wf m \<Longrightarrow> ci_wf (fst (map_subscript d k m))"
  using map_subscript_invar [OF ci_wf_swo ci_wf_map_invar] by (simp add: ci_wf_def)

lemma ci_wf_insert: "ci_wf m \<Longrightarrow> ci_wf (fst (map_insert e m))"
  using map_insert_invar [OF ci_wf_swo ci_wf_map_invar] by (simp add: ci_wf_def)

lemma ci_wf_erase: "ci_wf m \<Longrightarrow> ci_wf (fst (map_erase k m))"
  using map_erase_invar [OF ci_wf_swo ci_wf_map_invar] by (simp add: ci_wf_def)

lemma ci_wf_insert_range: "ci_wf m \<Longrightarrow> ci_wf (map_insert_range es m)"
  using map_insert_range_invar [OF ci_wf_swo ci_wf_map_invar] by (simp add: ci_wf_def)

lemma ci_wf_CaseInsensitiveStringMap: "ci_wf CaseInsensitiveStringMap"
  by (simp add: ci_wf_def map_invar_def CaseInsensitiveStringMap_def)

text \<open>Inserting an entry whose folded key is absent at any position updates the abstract map
  at that key.\<close>

lemma ci_abs_insert_absent:
  assumes "List.find (\<lambda>e. ci_key (fst e) = ci_key (fst e0)) (pre @ suf) = None"
  shows "List.find (\<lambda>e. ci_key (fst e) = x) (pre @ e0 # suf) =
         (if x = ci_key (fst e0) then Some e0 else List.find (\<lambda>e. ci_key (fst e) = x) (pre @ suf))"
  using assms by (auto simp: find_append split: option.splits)

lemma ci_abs_map_insert:
  assumes wf: "ci_wf m"
  shows "ci_abs (fst (map_insert e m)) =
           (case ci_abs m (ci_key (fst e)) of None \<Rightarrow> (ci_abs m)(ci_key (fst e) \<mapsto> e) | Some _ \<Rightarrow> ci_abs m)"
proof -
  obtain pre suf where lb: "lower_bound (key_comp m) (fst e) (tree m) = (pre, suf)"
    by (cases "lower_bound (key_comp m) (fst e) (tree m)")
  note parts = lower_bound_parts [OF ci_wf_swo [OF wf] ci_wf_map_invar [OF wf, unfolded map_invar_def] lb]
  show ?thesis
  proof (cases "ci_abs m (ci_key (fst e))")
    case None
    then have nf: "map_find (fst e) m = None" by (simp add: map_find_ci_abs [OF wf])
    have "List.find (\<lambda>x. ci_key (fst x) = ci_key (fst e)) (pre @ suf) = None"
      using None parts(1) by (simp add: ci_abs_def)
    then show ?thesis using None parts(1)
      by (simp add: map_insert_absent [OF lb nf] ci_abs_def fun_eq_iff ci_abs_insert_absent)
  next
    case (Some e')
    then have "map_find (fst e) m = Some e'" by (simp add: map_find_ci_abs [OF wf])
    then show ?thesis by (simp add: map_insert_found Some)
  qed
qed

lemma ci_abs_insert_range:
  "ci_wf m \<Longrightarrow> ci_abs (map_insert_range es m) x =
     (case ci_abs m x of Some e \<Rightarrow> Some e | None \<Rightarrow> List.find (\<lambda>e. ci_key (fst e) = x) es)"
proof (induction es arbitrary: m)
  case Nil
  then show ?case by (simp add: map_insert_range_def split: option.splits)
next
  case (Cons e es)
  have wf': "ci_wf (fst (map_insert e m))" using Cons.prems by (rule ci_wf_insert)
  have "map_insert_range (e # es) m = map_insert_range es (fst (map_insert e m))"
    by (simp add: map_insert_range_def)
  then show ?case
    using Cons.IH [OF wf'] ci_abs_map_insert [OF Cons.prems, of e]
    by (auto split: option.splits)
qed

lemma ci_wf_sorted_keys: "ci_wf m \<Longrightarrow> sorted_keys StringIgnoreCaseLess (tree m)"
proof -
  assume "ci_wf m"
  then have kc: "key_comp m = StringIgnoreCaseLess" and s: "sorted_keys (key_comp m) (tree m)"
    unfolding ci_wf_def map_invar_def by blast+
  from s show ?thesis unfolding kc .
qed

lemma ci_wf_sample: "ci_wf \<lparr>key_comp = StringIgnoreCaseLess, tree = [(L ''ciao'', L ''hi'')]\<rparr>"
  by (simp add: ci_wf_def map_invar_def)

lemma ci_abs_map_subscript:
  "ci_wf m \<Longrightarrow> ci_abs (fst (map_subscript d k m)) =
     (case ci_abs m (ci_key k) of None \<Rightarrow> (ci_abs m)(ci_key k \<mapsto> (k, d)) | Some _ \<Rightarrow> ci_abs m)"
  using ci_abs_map_insert [of m "(k, d)", unfolded fst_conv] by (simp add: map_subscript_insert)

lemma ci_subscript_lookup:
  "ci_wf m \<Longrightarrow> map_option snd (ci_abs (fst (map_subscript d k m)) (ci_key k)) = Some (snd (map_subscript d k m))"
proof -
  assume wf: "ci_wf m"
  have snd: "snd (map_subscript d k m) = (case ci_abs m (ci_key k) of None \<Rightarrow> d | Some e \<Rightarrow> snd e)"
    using map_subscript_insert [of d k m] by (simp add: map_find_ci_abs [OF wf])
  show ?thesis
    by (cases "ci_abs m (ci_key k)") (simp_all add: ci_abs_map_subscript [OF wf] snd)
qed

lemma dom_ci_abs: "dom (ci_abs m) = (\<lambda>e. ci_key (fst e)) ` set (tree m)"
  by (force simp: ci_abs_def dom_def find_None_iff)

lemma ci_abs_subscript_keeps:
  "ci_wf m \<Longrightarrow> ci_abs m x = Some e \<Longrightarrow> ci_abs (fst (map_subscript d k m)) x = Some e"
proof -
  assume wf: "ci_wf m" and e: "ci_abs m x = Some e"
  show ?thesis
  proof (cases "ci_abs m (ci_key k)")
    case None
    with e have "x \<noteq> ci_key k" by auto
    with None e show ?thesis by (simp add: ci_abs_map_subscript [OF wf])
  next
    case (Some e')
    with e show ?thesis by (simp add: ci_abs_map_subscript [OF wf])
  qed
qed

text \<open>The entries of a well-formed map are as many as its distinct folded keys.\<close>

lemma ci_wf_length_card: "ci_wf m \<Longrightarrow> length (tree m) = card (dom (ci_abs m))"
proof -
  assume wf: "ci_wf m"
  have "distinct (map (\<lambda>e. ci_key (fst e)) (tree m))"
    by (rule sorted_wrt_irrefl_distinct [where R = ord_class.lexordp])
       (simp_all add: lexordp_irreflexive' sorted_wrt_map ci_wf_sorted_keys [OF wf, unfolded StringIgnoreCaseLess_eq])
  then have "card (set (map (\<lambda>e. ci_key (fst e)) (tree m))) = length (tree m)"
    by (simp only: distinct_card length_map)
  then show ?thesis by (simp only: dom_ci_abs set_map)
qed

lemma dom_ci_abs_insert_range:
  assumes wf: "ci_wf m"
  shows "dom (ci_abs (map_insert_range es m)) = dom (ci_abs m) \<union> (\<lambda>e. ci_key (fst e)) ` set es"
proof -
  have "x \<in> dom (ci_abs (map_insert_range es m)) \<longleftrightarrow>
        x \<in> dom (ci_abs m) \<or> List.find (\<lambda>e. ci_key (fst e) = x) es \<noteq> None" for x
    by (simp add: domIff ci_abs_insert_range [OF wf] split: option.split)
  moreover have "List.find (\<lambda>e. ci_key (fst e) = x) es \<noteq> None \<longleftrightarrow> x \<in> (\<lambda>e. ci_key (fst e)) ` set es" for x
    by (force simp: find_None_iff)
  ultimately show ?thesis by blast
qed

lemma ci_abs_map_erase:
  assumes wf: "ci_wf m"
  shows "ci_abs (fst (map_erase k m)) = (ci_abs m)(ci_key k := None)"
proof (rule ext)
  have tree_eq: "tree (fst (map_erase k m)) = filter (\<lambda>e. ci_key k \<noteq> ci_key (fst e)) (tree m)"
    using map_erase_tree [OF ci_wf_swo [OF wf] ci_wf_map_invar [OF wf]] wf
    by (simp add: ci_wf_def ci_incomparable_iff)
  fix x
  show "ci_abs (fst (map_erase k m)) x = ((ci_abs m)(ci_key k := None)) x"
  proof (cases "x = ci_key k")
    case True
    then show ?thesis by (auto simp: tree_eq ci_abs_def find_filter find_None_iff)
  next
    case False
    then have eq: "(\<lambda>e. ci_key k \<noteq> ci_key (fst e) \<and> ci_key (fst e) = x) = (\<lambda>e. ci_key (fst e) = x)"
      by auto
    show ?thesis unfolding ci_abs_def tree_eq find_filter eq using False by simp
  qed
qed

lemma ci_find_member:
  assumes wf: "ci_wf m" and e: "e \<in> set (tree m)" and k: "ci_key (fst e) = ci_key k"
  shows "map_find k m = Some e"
proof -
  have "distinct (map (\<lambda>e. ci_key (fst e)) (tree m))"
    by (rule sorted_wrt_irrefl_distinct [where R = ord_class.lexordp])
       (simp_all add: lexordp_irreflexive' sorted_wrt_map ci_wf_sorted_keys [OF wf, unfolded StringIgnoreCaseLess_eq])
  from find_distinct_member [OF this e] show ?thesis
    by (simp add: ci_map_find_find [OF wf] k)
qed

subsection \<open>Lookup is case-insensitive\<close>

text \<open>C4: the contract of \<open>find\<close>: it finds nothing exactly when no stored key equals the
  searched key case-insensitively, and what it finds is a stored entry whose key does.\<close>
theorem ci_find_contract:
  assumes "ci_wf m"
  shows "(map_find k m = None \<longleftrightarrow> (\<forall>e \<in> set (tree m). ci_key (fst e) \<noteq> ci_key k)) \<and>
         (\<forall>e. map_find k m = Some e \<longrightarrow> e \<in> set (tree m) \<and> ci_key (fst e) = ci_key k)"
  using ci_map_find_find [OF assms, of k] by (auto simp: find_None_iff dest: find_Some_mem)

theorem ci_find_contract_witness:
  "map_find (L ''cane'') \<lparr>key_comp = StringIgnoreCaseLess, tree = [(L ''ciao'', L ''hi'')]\<rparr> = None"
  using ci_find_contract [OF ci_wf_sample, of "L ''cane''"] by (simp add: ci_key_def L_def case_fold_def)

text \<open>C15: the lower-bound search of \<open>find\<close> computes the same result as a linear search
  for the first entry whose key is equivalent to the searched key.\<close>
theorem ci_find_eq_linear_search:
  "ci_wf m \<Longrightarrow> map_find k m = List.find (\<lambda>e. incomparable StringIgnoreCaseLess k (fst e)) (tree m)"
  using map_find_eq_find [OF ci_wf_swo ci_wf_map_invar, of m k] by (simp add: ci_wf_def)

theorem ci_find_eq_linear_search_witness:
  "map_find (L ''GATTO'') \<lparr>key_comp = StringIgnoreCaseLess, tree = [(L ''ciao'', L ''hi'')]\<rparr> =
   List.find (\<lambda>e. incomparable StringIgnoreCaseLess (L ''GATTO'') (fst e)) (tree \<lparr>key_comp = StringIgnoreCaseLess, tree = [(L ''ciao'', L ''hi'')]\<rparr>)"
  by (rule ci_find_eq_linear_search [OF ci_wf_sample])

subsection \<open>The operations implement a map from folded keys\<close>

text \<open>C5: \<open>operator[]\<close> refines the abstract map: when the folded key is absent it adds
  the entry (key as spelled in this call, default value) and returns the default value;
  when present it changes nothing (the stored spelling is kept) and returns the stored
  value.\<close>
theorem ci_subscript_abs:
  assumes wf: "ci_wf m"
  shows "ci_abs (fst (map_subscript d k m)) =
           (case ci_abs m (ci_key k) of None \<Rightarrow> (ci_abs m)(ci_key k \<mapsto> (k, d)) | Some _ \<Rightarrow> ci_abs m)
         \<and> snd (map_subscript d k m) = (case ci_abs m (ci_key k) of None \<Rightarrow> d | Some e \<Rightarrow> snd e)"
proof
  show "ci_abs (fst (map_subscript d k m)) =
          (case ci_abs m (ci_key k) of None \<Rightarrow> (ci_abs m)(ci_key k \<mapsto> (k, d)) | Some _ \<Rightarrow> ci_abs m)"
    by (rule ci_abs_map_subscript [OF wf])
  show "snd (map_subscript d k m) = (case ci_abs m (ci_key k) of None \<Rightarrow> d | Some e \<Rightarrow> snd e)"
    using map_subscript_insert [of d k m] by (simp add: map_find_ci_abs [OF wf])
qed

theorem ci_subscript_abs_witness:
  "ci_abs (fst (map_subscript [] (L ''cane'') \<lparr>key_comp = StringIgnoreCaseLess, tree = [(L ''ciao'', L ''hi'')]\<rparr>)) =
     (case ci_abs \<lparr>key_comp = StringIgnoreCaseLess, tree = [(L ''ciao'', L ''hi'')]\<rparr> (ci_key (L ''cane'')) of
        None \<Rightarrow> (ci_abs \<lparr>key_comp = StringIgnoreCaseLess, tree = [(L ''ciao'', L ''hi'')]\<rparr>)(ci_key (L ''cane'') \<mapsto> (L ''cane'', []))
      | Some _ \<Rightarrow> ci_abs \<lparr>key_comp = StringIgnoreCaseLess, tree = [(L ''ciao'', L ''hi'')]\<rparr>)
   \<and> snd (map_subscript [] (L ''cane'') \<lparr>key_comp = StringIgnoreCaseLess, tree = [(L ''ciao'', L ''hi'')]\<rparr>) =
     (case ci_abs \<lparr>key_comp = StringIgnoreCaseLess, tree = [(L ''ciao'', L ''hi'')]\<rparr> (ci_key (L ''cane'')) of None \<Rightarrow> [] | Some e \<Rightarrow> snd e)"
  by (rule ci_subscript_abs [OF ci_wf_sample])

text \<open>C12: \<open>insert\<close> refines the abstract map: it adds the entry only when its folded
  key is absent (an existing entry and its spelling are kept), and its flag says whether it
  did.\<close>
theorem ci_insert_abs:
  assumes "ci_wf m"
  shows "ci_abs (fst (map_insert e m)) =
           (case ci_abs m (ci_key (fst e)) of None \<Rightarrow> (ci_abs m)(ci_key (fst e) \<mapsto> e) | Some _ \<Rightarrow> ci_abs m)
         \<and> snd (map_insert e m) = (ci_abs m (ci_key (fst e)) = None)"
proof
  show "ci_abs (fst (map_insert e m)) =
         (case ci_abs m (ci_key (fst e)) of None \<Rightarrow> (ci_abs m)(ci_key (fst e) \<mapsto> e) | Some _ \<Rightarrow> ci_abs m)"
    by (rule ci_abs_map_insert [OF assms])
  obtain pre suf where lb: "lower_bound (key_comp m) (fst e) (tree m) = (pre, suf)"
    by (cases "lower_bound (key_comp m) (fst e) (tree m)")
  show "snd (map_insert e m) = (ci_abs m (ci_key (fst e)) = None)"
  proof (cases "map_find (fst e) m")
    case None
    then show ?thesis using map_find_ci_abs [OF assms] by (simp add: map_insert_absent [OF lb])
  next
    case (Some e')
    then show ?thesis using map_find_ci_abs [OF assms] by (simp add: map_insert_found)
  qed
qed

theorem ci_insert_abs_witness:
  "ci_abs (fst (map_insert (L ''CIAO'', L ''bye'') \<lparr>key_comp = StringIgnoreCaseLess, tree = [(L ''ciao'', L ''hi'')]\<rparr>)) =
     (case ci_abs \<lparr>key_comp = StringIgnoreCaseLess, tree = [(L ''ciao'', L ''hi'')]\<rparr> (ci_key (fst (L ''CIAO'', L ''bye''))) of
        None \<Rightarrow> (ci_abs \<lparr>key_comp = StringIgnoreCaseLess, tree = [(L ''ciao'', L ''hi'')]\<rparr>)(ci_key (fst (L ''CIAO'', L ''bye'')) \<mapsto> (L ''CIAO'', L ''bye''))
      | Some _ \<Rightarrow> ci_abs \<lparr>key_comp = StringIgnoreCaseLess, tree = [(L ''ciao'', L ''hi'')]\<rparr>)
   \<and> snd (map_insert (L ''CIAO'', L ''bye'') \<lparr>key_comp = StringIgnoreCaseLess, tree = [(L ''ciao'', L ''hi'')]\<rparr>) =
     (ci_abs \<lparr>key_comp = StringIgnoreCaseLess, tree = [(L ''ciao'', L ''hi'')]\<rparr> (ci_key (fst (L ''CIAO'', L ''bye''))) = None)"
  by (rule ci_insert_abs [OF ci_wf_sample])

text \<open>C13: \<open>erase\<close> refines deletion from the abstract map at the folded key, and
  returns 1 when an entry was removed, 0 otherwise.\<close>
theorem ci_erase_abs:
  assumes wf: "ci_wf m"
  shows "ci_abs (fst (map_erase k m)) = (ci_abs m)(ci_key k := None) \<and>
         snd (map_erase k m) = (if ci_abs m (ci_key k) = None then 0 else 1)"
proof
  show "ci_abs (fst (map_erase k m)) = (ci_abs m)(ci_key k := None)"
    by (rule ci_abs_map_erase [OF wf])
  show "snd (map_erase k m) = (if ci_abs m (ci_key k) = None then 0 else 1)"
    using map_erase_count [OF ci_wf_swo [OF wf] ci_wf_map_invar [OF wf]]
    by (simp add: map_find_ci_abs [OF wf])
qed

theorem ci_erase_abs_witness:
  "ci_abs (fst (map_erase (L ''CIAO'') \<lparr>key_comp = StringIgnoreCaseLess, tree = [(L ''ciao'', L ''hi'')]\<rparr>)) = (ci_abs \<lparr>key_comp = StringIgnoreCaseLess, tree = [(L ''ciao'', L ''hi'')]\<rparr>)(ci_key (L ''CIAO'') := None) \<and>
   snd (map_erase (L ''CIAO'') \<lparr>key_comp = StringIgnoreCaseLess, tree = [(L ''ciao'', L ''hi'')]\<rparr>) = (if ci_abs \<lparr>key_comp = StringIgnoreCaseLess, tree = [(L ''ciao'', L ''hi'')]\<rparr> (ci_key (L ''CIAO'')) = None then 0 else 1)"
  by (rule ci_erase_abs [OF ci_wf_sample])

text \<open>C10: \<open>operator[]\<close> is idempotent up to case: a second call with the same key or a
  case variant of it leaves the map as the first call left it and returns the same value.\<close>
theorem ci_subscript_idem:
  assumes wf: "ci_wf m" and k: "ci_key k' = ci_key k"
  shows "map_subscript d k' (fst (map_subscript d k m)) = map_subscript d k m"
proof (cases "map_find k m")
  case None
  obtain pre suf where lb: "lower_bound (key_comp m) k (tree m) = (pre, suf)"
    by (cases "lower_bound (key_comp m) k (tree m)")
  note parts = lower_bound_parts [OF ci_wf_swo [OF wf] ci_wf_map_invar [OF wf, unfolded map_invar_def] lb]
  have sub: "map_subscript d k m = (m\<lparr>tree := pre @ (k, d) # suf\<rparr>, d)"
    by (rule map_subscript_absent [OF lb None])
  have wf1: "ci_wf (m\<lparr>tree := pre @ (k, d) # suf\<rparr>)"
    using ci_wf_subscript [OF wf, of d k] by (simp add: sub)
  have "List.find (\<lambda>x. ci_key (fst x) = ci_key (fst (k, d))) (pre @ suf) = None"
    using None parts(1) by (simp add: ci_map_find_find [OF wf])
  then have "map_find k' (m\<lparr>tree := pre @ (k, d) # suf\<rparr>) = Some (k, d)"
    using ci_abs_insert_absent [of "(k, d)" pre suf] k by (simp add: ci_map_find_find [OF wf1])
  then show ?thesis by (simp add: sub map_subscript_found)
next
  case (Some e)
  then have "map_find k' m = Some e" using k by (simp add: map_find_ci_abs [OF wf])
  with Some show ?thesis by (simp add: map_subscript_found)
qed

theorem ci_subscript_idem_witness:
  "map_subscript [] (L ''CANE'') (fst (map_subscript [] (L ''cane'') \<lparr>key_comp = StringIgnoreCaseLess, tree = [(L ''ciao'', L ''hi'')]\<rparr>)) =
   map_subscript [] (L ''cane'') \<lparr>key_comp = StringIgnoreCaseLess, tree = [(L ''ciao'', L ''hi'')]\<rparr>"
  by (rule ci_subscript_idem [OF ci_wf_sample]) (simp add: ci_key_def L_def case_fold_def)

subsection \<open>The invariant and what it guarantees\<close>

text \<open>C3: every operation that changes a case-insensitive map (\<open>operator[]\<close>,
  \<open>insert\<close>, \<open>erase\<close>, range insertion) keeps its invariant: the comparator stays
  \<open>StringIgnoreCaseLess\<close> and the entries stay sorted by it.\<close>
theorem ci_operations_preserve_wf:
  assumes "ci_wf m"
  shows "ci_wf (fst (map_subscript d k m)) \<and> ci_wf (fst (map_insert e m)) \<and>
         ci_wf (fst (map_erase k m)) \<and> ci_wf (map_insert_range es m)"
  using assms by (simp add: ci_wf_subscript ci_wf_insert ci_wf_erase ci_wf_insert_range)

theorem ci_operations_preserve_wf_witness:
  "ci_wf (fst (map_subscript [] (L ''cane'') \<lparr>key_comp = StringIgnoreCaseLess, tree = [(L ''ciao'', L ''hi'')]\<rparr>)) \<and>
   ci_wf (fst (map_insert (L ''CANE'', L ''dog'') \<lparr>key_comp = StringIgnoreCaseLess, tree = [(L ''ciao'', L ''hi'')]\<rparr>)) \<and>
   ci_wf (fst (map_erase (L ''cane'') \<lparr>key_comp = StringIgnoreCaseLess, tree = [(L ''ciao'', L ''hi'')]\<rparr>)) \<and>
   ci_wf (map_insert_range [(L ''gatto'', L ''cat'')] \<lparr>key_comp = StringIgnoreCaseLess, tree = [(L ''ciao'', L ''hi'')]\<rparr>)"
  by (rule ci_operations_preserve_wf [OF ci_wf_sample])

text \<open>C8: no two entries of a well-formed case-insensitive map have keys that are equal
  ignoring case.\<close>
theorem ci_keys_distinct: "ci_wf m \<Longrightarrow> distinct (map (\<lambda>e. ci_key (fst e)) (tree m))"
  by (rule sorted_wrt_irrefl_distinct [where R = ord_class.lexordp])
     (simp_all add: lexordp_irreflexive' sorted_wrt_map ci_wf_sorted_keys [unfolded StringIgnoreCaseLess_eq])

theorem ci_keys_distinct_witness:
  "distinct (map (\<lambda>e. ci_key (fst e)) (tree \<lparr>key_comp = StringIgnoreCaseLess, tree = [(L ''ciao'', L ''hi'')]\<rparr>))"
  by (rule ci_keys_distinct [OF ci_wf_sample])

text \<open>Iterating a well-formed case-insensitive map visits its keys in strictly increasing
  order of their folded forms.\<close>
lemma ci_keys_sorted:
  "ci_wf m \<Longrightarrow> sorted_wrt ord_class.lexordp (map (\<lambda>e. ci_key (fst e)) (tree m))"
  by (simp add: sorted_wrt_map ci_wf_sorted_keys [unfolded StringIgnoreCaseLess_eq])

text \<open>C14: the initializer-list constructor of the alias type builds a well-formed map that
  holds, for each folded key, the first entry of the list with that key: later case
  variants are dropped, never duplicated.\<close>
theorem ci_insert_range_constructs:
  "ci_wf (map_insert_range es CaseInsensitiveStringMap) \<and>
   ci_abs (map_insert_range es CaseInsensitiveStringMap) = (\<lambda>x. List.find (\<lambda>e. ci_key (fst e) = x) es)"
proof
  show "ci_wf (map_insert_range es CaseInsensitiveStringMap)"
    by (rule ci_wf_insert_range [OF ci_wf_CaseInsensitiveStringMap])
  have "ci_abs (CaseInsensitiveStringMap :: (wstring, 'a) std_map) x = None" for x
    by (simp add: ci_abs_def CaseInsensitiveStringMap_def)
  then show "ci_abs (map_insert_range es CaseInsensitiveStringMap) = (\<lambda>x. List.find (\<lambda>e. ci_key (fst e) = x) es)"
    by (simp add: fun_eq_iff ci_abs_insert_range [OF ci_wf_CaseInsensitiveStringMap])
qed

subsection \<open>Round trip and size\<close>

text \<open>C23: insert then find: after \<open>insert\<close> of a pair, \<open>find\<close> of its key (or of any
  case variant) finds the entry the map held before, if any, and otherwise the inserted
  pair.\<close>
theorem ci_insert_find_roundtrip:
  assumes wf: "ci_wf m" and k: "ci_key k' = ci_key k"
  shows "map_find k' (fst (map_insert (k, v) m)) = Some (case map_find k m of None \<Rightarrow> (k, v) | Some e \<Rightarrow> e)"
  using ci_abs_map_insert [OF wf, of "(k, v)"] k
  by (simp add: map_find_ci_abs [OF ci_wf_insert [OF wf]] map_find_ci_abs [OF wf] split: option.splits)

theorem ci_insert_find_roundtrip_witness:
  "map_find (L ''Cane'') (fst (map_insert (L ''cane'', L ''dog'') \<lparr>key_comp = StringIgnoreCaseLess, tree = [(L ''ciao'', L ''hi'')]\<rparr>)) =
   Some (L ''cane'', L ''dog'')"
proof -
  have k: "ci_key (L ''Cane'') = ci_key (L ''cane'')" by (simp add: ci_key_def L_def case_fold_def)
  have n: "map_find (L ''cane'') \<lparr>key_comp = StringIgnoreCaseLess, tree = [(L ''ciao'', L ''hi'')]\<rparr> = None"
    by (simp add: map_find_def StringIgnoreCaseLess_eq ci_key_def L_def case_fold_def)
  show ?thesis
    using ci_insert_find_roundtrip [OF ci_wf_sample k, of "L ''dog''"] unfolding n option.case .
qed

text \<open>C24: range insertion (the initializer-list constructor) leaves a map with one entry
  per distinct folded key among the stored and the inserted keys, hence never more entries
  than it had plus the length of the range.\<close>
theorem ci_insert_range_size:
  assumes wf: "ci_wf m"
  shows "length (tree (map_insert_range es m)) = card (dom (ci_abs m) \<union> (\<lambda>e. ci_key (fst e)) ` set es) \<and>
         length (tree (map_insert_range es m)) \<le> length (tree m) + length es"
proof -
  have len: "length (tree (map_insert_range es m)) = card (dom (ci_abs m) \<union> (\<lambda>e. ci_key (fst e)) ` set es)"
    using ci_wf_length_card [OF ci_wf_insert_range [OF wf, of es]] by (simp add: dom_ci_abs_insert_range [OF wf])
  have "card ((\<lambda>e. ci_key (fst e)) ` set es) \<le> length es"
    using card_image_le [of "set es" "\<lambda>e. ci_key (fst e)"] card_length [of es] by simp
  then have bound: "card (dom (ci_abs m) \<union> (\<lambda>e. ci_key (fst e)) ` set es) \<le> length (tree m) + length es"
    using card_Un_le [of "dom (ci_abs m)" "(\<lambda>e. ci_key (fst e)) ` set es"] ci_wf_length_card [OF wf]
    by linarith
  show ?thesis unfolding len using bound by (rule conjI [OF refl])
qed


theorem ci_insert_range_size_witness:
  "length (tree (map_insert_range [(L ''ciao'', L ''hi''), (L ''CIAO'', L ''bye'')] CaseInsensitiveStringMap)) =
     card (dom (ci_abs (CaseInsensitiveStringMap :: (wstring, wstring) std_map)) \<union>
           (\<lambda>e. ci_key (fst e)) ` set [(L ''ciao'', L ''hi''), (L ''CIAO'', L ''bye'')]) \<and>
   length (tree (map_insert_range [(L ''ciao'', L ''hi''), (L ''CIAO'', L ''bye'')] CaseInsensitiveStringMap)) \<le>
     length (tree (CaseInsensitiveStringMap :: (wstring, wstring) std_map)) + length [(L ''ciao'', L ''hi''), (L ''CIAO'', L ''bye'')]"
  by (rule ci_insert_range_size [OF ci_wf_CaseInsensitiveStringMap])

text \<open>C25: erase then find: after \<open>erase(k)\<close>, \<open>find\<close> of \<open>k\<close> or of any case
  variant finds nothing, and \<open>find\<close> of every other key finds what it found before.\<close>
theorem ci_erase_find_roundtrip:
  assumes wf: "ci_wf m"
  shows "map_find k' (fst (map_erase k m)) = (if ci_key k' = ci_key k then None else map_find k' m)"
  using ci_abs_map_erase [OF wf, of k]
  by (simp add: map_find_ci_abs [OF ci_wf_erase [OF wf]] map_find_ci_abs [OF wf])

theorem ci_erase_find_roundtrip_witness:
  "map_find (L ''Ciao'') (fst (map_erase (L ''CIAO'') \<lparr>key_comp = StringIgnoreCaseLess, tree = [(L ''ciao'', L ''hi'')]\<rparr>)) = None"
proof -
  have k: "ci_key (L ''Ciao'') = ci_key (L ''CIAO'')" by (simp add: ci_key_def L_def case_fold_def)
  show ?thesis using ci_erase_find_roundtrip [OF ci_wf_sample, of "L ''Ciao''" "L ''CIAO''"] k by simp
qed

text \<open>C26: \<open>operator[]\<close> then \<open>find\<close>: after \<open>dictionary[k]\<close>, \<open>find\<close> of \<open>k\<close> or
  of any case variant finds an entry whose value is the one the returned reference
  designated.\<close>
theorem ci_subscript_find_roundtrip:
  assumes wf: "ci_wf m" and k: "ci_key k' = ci_key k"
  shows "map_option snd (map_find k' (fst (map_subscript d k m))) = Some (snd (map_subscript d k m))"
  using ci_subscript_lookup [OF wf, of d k] k
  by (simp add: map_find_ci_abs [OF ci_wf_subscript [OF wf]])

theorem ci_subscript_find_roundtrip_witness:
  "map_option snd (map_find (L ''CANE'') (fst (map_subscript [] (L ''cane'') \<lparr>key_comp = StringIgnoreCaseLess, tree = [(L ''ciao'', L ''hi'')]\<rparr>))) =
   Some (snd (map_subscript [] (L ''cane'') \<lparr>key_comp = StringIgnoreCaseLess, tree = [(L ''ciao'', L ''hi'')]\<rparr>))"
proof -
  have k: "ci_key (L ''CANE'') = ci_key (L ''cane'')" by (simp add: ci_key_def L_def case_fold_def)
  show ?thesis by (rule ci_subscript_find_roundtrip [OF ci_wf_sample k])
qed

end
