(* ===== verification/TestMain.thy ===== *)
theory TestMain
  imports CIMap
begin

text \<open>
  The test program \<open>main\<close> (lines 65--98 of CaseInsensitiveStringKeyMap.cpp): the debug
  \<open>ASSERT\<close> macro (line 21) as an error value, the dictionary built by the initializer-list
  constructor, the thirteen assertions as a list of checks run in order through
  \<open>operator[]\<close>, and the two lines written to \<open>wcout\<close>. The claims show that the
  program succeeds, and characterise a run of any list of checks on any well-formed map.
\<close>

subsection \<open>Definitions\<close>

text \<open>\<open>_ASSERTE\<close> in a debug build: a false expression reports its source line and the
  run stops.\<close>

datatype main_error = AssertionFailed nat

definition ASSERT :: "nat \<Rightarrow> bool \<Rightarrow> main_error + unit" where
  "ASSERT line expr = (if expr then Inr () else Inl (AssertionFailed line))"

text \<open>Lines 73--78: the dictionary, built by the initializer-list constructor of the alias
  type.\<close>

definition dictionary_init :: "(wstring, wstring) std_map" where
  "dictionary_init =
     map_insert_range
       [(L ''ciao'', L ''hi''), (L ''gatto'', L ''cat''), (L ''perch'' @ [0xE9], L ''because'')]
       CaseInsensitiveStringMap"

text \<open>Lines 81--95: each assertion as its source line, the key given to \<open>operator[]\<close>
  and the expected value.\<close>

definition main_checks :: "(nat \<times> wstring \<times> wstring) list" where
  "main_checks =
     [(81, L ''ciao'', L ''hi''), (82, L ''Ciao'', L ''hi''), (83, L ''CIAO'', L ''hi''),
      (84, L ''CIaO'', L ''hi''),
      (86, L ''gatto'', L ''cat''), (87, L ''GATTO'', L ''cat''), (88, L ''Gatto'', L ''cat''),
      (89, L ''gAtTo'', L ''cat''), (90, L ''gatTO'', L ''cat''),
      (92, L ''perch'' @ [0xE9], L ''because''), (93, L ''PERch'' @ [0xE9], L ''because''),
      (94, L ''PERCH'' @ [0xC9], L ''because''), (95, L ''PeRCh'' @ [0xC9], L ''because'')]"

text \<open>\<^verbatim>\<open>ASSERT(dictionary[k] == v);\<close> in sequence: \<open>operator[]\<close> runs first (and may
  insert a default-constructed \<^verbatim>\<open>L""\<close>), then the comparison is asserted.\<close>

fun run_checks :: "(wstring, wstring) std_map \<Rightarrow> (nat \<times> wstring \<times> wstring) list \<Rightarrow>
    main_error + (wstring, wstring) std_map" where
  "run_checks m [] = Inr m"
| "run_checks m ((line, k, v) # cs) =
     (case map_subscript [] k m of (m', x) \<Rightarrow>
        (case ASSERT line (x = v) of Inl e \<Rightarrow> Inl e | Inr _ \<Rightarrow> run_checks m' cs))"

text \<open>Line 71: the banner written first, and line 97: the closing line, written only when
  every assertion held (\<^verbatim>\<open>\n\<close> is the code unit 0x0A).\<close>

definition main_banner :: wstring where
  "main_banner = L ''*** Testing Map with Case Insensitive String Keys ***'' @ [0x0A, 0x0A]"

definition main_all_right :: wstring where
  "main_all_right = L ''All right.'' @ [0x0A]"

text \<open>\<open>main\<close> (lines 65--98): the lines written to \<open>wcout\<close> and the assertion failure
  that stopped the run, if any.\<close>

definition main :: "wstring list \<times> main_error option" where
  "main =
     (case run_checks dictionary_init main_checks of
        Inl e \<Rightarrow> ([main_banner], Some e)
      | Inr _ \<Rightarrow> ([main_banner, main_all_right], None))"

subsection \<open>Evaluation of the test program\<close>

lemmas wide_eval = StringIgnoreCaseLess_eq ci_key_def L_def case_fold_def

lemma dictionary_init_eq:
  "dictionary_init = \<lparr>key_comp = StringIgnoreCaseLess,
     tree = [(L ''ciao'', L ''hi''), (L ''gatto'', L ''cat''), (L ''perch'' @ [0xE9], L ''because'')]\<rparr>"
  by (simp add: dictionary_init_def map_insert_range_def map_insert_def
      CaseInsensitiveStringMap_def wide_eval)

lemma ci_wf_dictionary_init: "ci_wf dictionary_init"
  by (simp add: dictionary_init_eq ci_wf_def map_invar_def wide_eval)

lemma run_checks_dictionary_init: "run_checks dictionary_init main_checks = Inr dictionary_init"
  by (simp add: dictionary_init_eq main_checks_def map_subscript_def ASSERT_def wide_eval)

text \<open>C1: the program runs to completion: all thirteen assertions hold, and it writes the
  banner and ``All right.''.\<close>

theorem main_asserts_succeed:
  "main = ([L ''*** Testing Map with Case Insensitive String Keys ***'' @ [0x0A, 0x0A],
            L ''All right.'' @ [0x0A]], None)"
  by (simp add: main_def main_banner_def main_all_right_def run_checks_dictionary_init)

text \<open>C11: the \<open>operator[]\<close> calls of the assertions never insert: every key they use
  finds its entry, so the dictionary after the assertions is the dictionary before, with its
  three entries.\<close>

theorem main_dictionary_unchanged:
  "run_checks dictionary_init main_checks = Inr dictionary_init \<and> length (tree dictionary_init) = 3"
  using run_checks_dictionary_init by (simp add: dictionary_init_eq)

text \<open>One step of the assertions, as the source reads: \<open>operator[]\<close>, then the asserted
  comparison. The proofs below go by induction on the list of checks with this equation in
  place of the defining one.\<close>

lemma run_checks_Cons [simp]:
  "run_checks m ((line, k, v) # cs) =
     (if snd (map_subscript [] k m) = v then run_checks (fst (map_subscript [] k m)) cs
      else Inl (AssertionFailed line))"
  by (simp add: ASSERT_def split: prod.split)

declare run_checks.simps(2) [simp del]

lemma run_checks_keeps:
  "ci_wf m \<Longrightarrow> run_checks m cs = Inr m' \<Longrightarrow> ci_abs m x = Some e \<Longrightarrow> ci_abs m' x = Some e"
proof (induction cs arbitrary: m)
  case Nil
  then show ?case by simp
next
  case (Cons c cs)
  obtain line k v where c: "c = (line, k, v)" by (cases c)
  have rest: "run_checks (fst (map_subscript [] k m)) cs = Inr m'"
    using Cons.prems(2) c by (simp split: if_splits)
  show ?case
    by (rule Cons.IH [OF ci_wf_subscript [OF Cons.prems(1)] rest ci_abs_subscript_keeps [OF Cons.prems(1,3)]])
qed

text \<open>C21: the error path of the assertions: a run that ends in \<open>AssertionFailed line\<close>
  reached a check of that line whose \<open>operator[]\<close> returned a value other than the
  expected one, after all the checks before it had succeeded.\<close>

theorem run_checks_failure:
  "run_checks m cs = Inl e \<Longrightarrow>
   \<exists>cs1 line k v cs2 m'. cs = cs1 @ (line, k, v) # cs2 \<and> run_checks m cs1 = Inr m' \<and>
     snd (map_subscript [] k m') \<noteq> v \<and> e = AssertionFailed line"
proof (induction cs arbitrary: m)
  case Nil
  then show ?case by simp
next
  case (Cons c cs)
  obtain line k v where c: "c = (line, k, v)" by (cases c)
  show ?case
  proof (cases "snd (map_subscript [] k m) = v")
    case True
    with Cons.prems c have "run_checks (fst (map_subscript [] k m)) cs = Inl e" by simp
    with Cons.IH obtain cs1 line' k' v' cs2 m' where
      "cs = cs1 @ (line', k', v') # cs2" "run_checks (fst (map_subscript [] k m)) cs1 = Inr m'"
      "snd (map_subscript [] k' m') \<noteq> v'" "e = AssertionFailed line'"
      by blast
    with True c show ?thesis
      by (intro exI [of _ "(line, k, v) # cs1"]) auto
  next
    case False
    with Cons.prems c show ?thesis
      by (intro exI [of _ "[]"]) auto
  qed
qed

theorem run_checks_failure_witness:
  "\<exists>cs1 line k v cs2 m'. [(99, L ''cane'', L ''dog'')] = cs1 @ (line, k, v) # cs2 \<and>
     run_checks dictionary_init cs1 = Inr m' \<and> snd (map_subscript [] k m') \<noteq> v \<and>
     AssertionFailed 99 = AssertionFailed line"
proof -
  have "run_checks dictionary_init [(99, L ''cane'', L ''dog'')] = Inl (AssertionFailed 99)"
    by (simp add: dictionary_init_eq map_subscript_def wide_eval)
  then show ?thesis by (rule run_checks_failure)
qed

text \<open>C22: after a successful run on a well-formed map, every checked key, in whatever case,
  is stored with the value its assertion expected.\<close>

theorem run_checks_finds_expected:
  "ci_wf m \<Longrightarrow> run_checks m cs = Inr m' \<Longrightarrow>
   list_all (\<lambda>(line, k, v). map_option snd (ci_abs m' (ci_key k)) = Some v) cs"
proof (induction cs arbitrary: m)
  case Nil
  then show ?case by simp
next
  case (Cons c cs)
  obtain line k v where c: "c = (line, k, v)" by (cases c)
  let ?m1 = "fst (map_subscript [] k m)"
  have v: "snd (map_subscript [] k m) = v" and rest: "run_checks ?m1 cs = Inr m'"
    using Cons.prems(2) c by (simp_all split: if_splits)
  have wf1: "ci_wf ?m1" using Cons.prems(1) by (rule ci_wf_subscript)
  obtain e where e: "ci_abs ?m1 (ci_key k) = Some e" "snd e = v"
    using ci_subscript_lookup [OF Cons.prems(1), of "[]" k] v by auto
  have "ci_abs m' (ci_key k) = Some e" by (rule run_checks_keeps [OF wf1 rest e(1)])
  with e(2) Cons.IH [OF wf1 rest] c show ?case by (cases e) simp
qed

theorem run_checks_finds_expected_witness:
  "list_all (\<lambda>(line, k, v). map_option snd (ci_abs dictionary_init (ci_key k)) = Some v) main_checks"
  by (rule run_checks_finds_expected [OF ci_wf_dictionary_init run_checks_dictionary_init])

text \<open>C27: the assertions are complete for a well-formed map: a list of checks each of which
  expects, for a case variant of a stored key, the value stored under it, runs to the end
  and leaves the map unchanged.\<close>

theorem run_checks_correct_checks_succeed:
  "ci_wf m \<Longrightarrow>
   list_all (\<lambda>(line, k, v). \<exists>e \<in> set (tree m). ci_key (fst e) = ci_key k \<and> snd e = v) cs \<Longrightarrow>
   run_checks m cs = Inr m"
proof (induction cs)
  case Nil
  then show ?case by simp
next
  case (Cons c cs)
  obtain line k v where c: "c = (line, k, v)" by (cases c)
  obtain e where e: "e \<in> set (tree m)" "ci_key (fst e) = ci_key k" "snd e = v"
    using Cons.prems(2) c by auto
  have "map_subscript [] k m = (m, v)"
    using map_subscript_found [OF ci_find_member [OF Cons.prems(1) e(1,2)]] e(3) by simp
  with Cons c show ?case by simp
qed

theorem run_checks_correct_checks_succeed_witness:
  "list_all (\<lambda>(line, k, v). \<exists>e \<in> set (tree dictionary_init). ci_key (fst e) = ci_key k \<and> snd e = v)
     main_checks \<and> run_checks dictionary_init main_checks = Inr dictionary_init"
proof -
  have h: "list_all (\<lambda>(line, k, v). \<exists>e \<in> set (tree dictionary_init). ci_key (fst e) = ci_key k \<and> snd e = v)
     main_checks"
    by (simp add: main_checks_def dictionary_init_eq wide_eval)
  show ?thesis using h run_checks_correct_checks_succeed [OF ci_wf_dictionary_init h] by simp
qed

end
