(* ===== verification/MainMachine.thy ===== *)
theory MainMachine
  imports TestMain
begin

text \<open>
  \<open>main\<close> (lines 65--98) as a transition system, one step per statement, in the style of a
  small-step semantics: the state is \<open>main\<close>'s frame (the program point, the local
  \<open>dictionary\<close>, the assertions still to run) together with the lines written to
  \<open>wcout\<close>. The step relation is parametrised by the build: \<open>_ASSERTE\<close> (crtdbg.h),
  which the macro \<open>ASSERT\<close> (line 21) expands to, is compiled only when \<open>_DEBUG\<close> is
  defined; without \<open>_DEBUG\<close> (the release build) it expands to nothing, so neither the
  lookup nor the comparison of an assertion is executed; in the debug build a false
  assertion reports its line and the run stops. The claim: the outcome of every finished
  run is the big-step result \<open>main\<close> of TestMain in the debug build, and the two lines in
  the release build (C9).
\<close>

subsection \<open>States and steps\<close>

text \<open>The program points of \<open>main\<close>: before the banner (line 71), before the dictionary's
  construction (lines 73--78), in the assertions (lines 81--95), before the closing line
  (line 97), returned (line 98), and stopped by a failed assertion of a given line.\<close>

datatype main_pc = Banner | Construct | Asserts | AllRight | Return | Aborted nat

record main_state =
  pc :: main_pc
  dictionary :: "(wstring, wstring) std_map"
  pending :: "(nat \<times> wstring \<times> wstring) list"
  wcout :: "wstring list"

text \<open>Entry to \<open>main\<close>: nothing written yet, the dictionary not yet constructed.\<close>

definition main_init :: main_state where
  "main_init = \<lparr>pc = Banner, dictionary = CaseInsensitiveStringMap, pending = [], wcout = []\<rparr>"

text \<open>One statement of \<open>main\<close>; \<open>nodebug\<close> says that \<open>_DEBUG\<close> is not defined.\<close>

inductive main_step :: "bool \<Rightarrow> main_state \<Rightarrow> main_state \<Rightarrow> bool" for nodebug :: bool where
  banner: "pc s = Banner \<Longrightarrow>
    main_step nodebug s (s\<lparr>pc := Construct, wcout := wcout s @ [main_banner]\<rparr>)"
| construct: "pc s = Construct \<Longrightarrow>
    main_step nodebug s (s\<lparr>pc := Asserts, dictionary := dictionary_init, pending := main_checks\<rparr>)"
| assert_pass: "\<not> nodebug \<Longrightarrow> pc s = Asserts \<Longrightarrow> pending s = (line, k, v) # cs \<Longrightarrow>
    map_subscript [] k (dictionary s) = (m, x) \<Longrightarrow> x = v \<Longrightarrow>
    main_step nodebug s (s\<lparr>dictionary := m, pending := cs\<rparr>)"
| assert_fail: "\<not> nodebug \<Longrightarrow> pc s = Asserts \<Longrightarrow> pending s = (line, k, v) # cs \<Longrightarrow>
    map_subscript [] k (dictionary s) = (m, x) \<Longrightarrow> x \<noteq> v \<Longrightarrow>
    main_step nodebug s (s\<lparr>pc := Aborted line, dictionary := m, pending := cs\<rparr>)"
| assert_skip: "nodebug \<Longrightarrow> pc s = Asserts \<Longrightarrow> pending s = c # cs \<Longrightarrow>
    main_step nodebug s (s\<lparr>pending := cs\<rparr>)"
| asserts_done: "pc s = Asserts \<Longrightarrow> pending s = [] \<Longrightarrow>
    main_step nodebug s (s\<lparr>pc := AllRight\<rparr>)"
| all_right: "pc s = AllRight \<Longrightarrow>
    main_step nodebug s (s\<lparr>pc := Return, wcout := wcout s @ [main_all_right]\<rparr>)"

code_pred main_step .

inductive_cases main_stepE: "main_step nodebug s s'"

text \<open>A run has ended when \<open>main\<close> returned or an assertion stopped it; its outcome is what
  \<open>main\<close> of TestMain returns: the lines written and the failure, if any.\<close>

definition main_final :: "main_state \<Rightarrow> bool" where
  "main_final s = (case pc s of Return \<Rightarrow> True | Aborted _ \<Rightarrow> True | _ \<Rightarrow> False)"

definition main_outcome :: "main_state \<Rightarrow> wstring list \<times> main_error option" where
  "main_outcome s = (wcout s, case pc s of Aborted line \<Rightarrow> Some (AssertionFailed line) | _ \<Rightarrow> None)"

text \<open>What holds at each program point of a run from the entry: the lines written so far and,
  in the debug build, how the remaining assertions relate to the run of all of them.\<close>

definition main_inv :: "bool \<Rightarrow> main_state \<Rightarrow> bool" where
  "main_inv nodebug s =
     (case pc s of
        Banner \<Rightarrow> wcout s = []
      | Construct \<Rightarrow> wcout s = [main_banner]
      | Asserts \<Rightarrow> wcout s = [main_banner] \<and>
          (nodebug \<or> run_checks (dictionary s) (pending s) = run_checks dictionary_init main_checks)
      | AllRight \<Rightarrow> wcout s = [main_banner] \<and>
          (nodebug \<or> run_checks dictionary_init main_checks = Inr (dictionary s))
      | Return \<Rightarrow> wcout s = [main_banner, main_all_right] \<and>
          (nodebug \<or> run_checks dictionary_init main_checks = Inr (dictionary s))
      | Aborted line \<Rightarrow> wcout s = [main_banner] \<and> \<not> nodebug \<and>
          run_checks dictionary_init main_checks = Inl (AssertionFailed line))"

text \<open>Each step moves to a later program point or runs one assertion fewer.\<close>

subsection \<open>The invariant of the reachable states\<close>

lemma main_inv_init: "main_inv nodebug main_init"
  by (simp add: main_inv_def main_init_def)

lemma main_inv_step: "main_step nodebug s s' \<Longrightarrow> main_inv nodebug s \<Longrightarrow> main_inv nodebug s'"
  by (induction rule: main_step.induct) (auto simp: main_inv_def)

lemma main_inv_reachable: "(main_step nodebug)\<^sup>*\<^sup>* main_init s \<Longrightarrow> main_inv nodebug s"
  by (induction rule: rtranclp_induct) (auto intro: main_inv_init main_inv_step)

text \<open>In the debug build, a run of the assertions from any state at line 81 follows
  \<open>run_checks\<close>: when that succeeds, the machine reaches the end of the assertions with
  the map \<open>run_checks\<close> returns.\<close>

lemma main_asserts_run:
  "pc s = Asserts \<Longrightarrow> run_checks (dictionary s) (pending s) = Inr m' \<Longrightarrow>
   (main_step False)\<^sup>*\<^sup>* s (s\<lparr>dictionary := m', pending := []\<rparr>)"
proof (induction "pending s" arbitrary: s)
  case Nil
  then have "s\<lparr>dictionary := m', pending := []\<rparr> = s" by (cases s) auto
  then show ?case by simp
next
  case (Cons c cs)
  obtain line k v where c: "c = (line, k, v)" by (cases c)
  let ?s1 = "s\<lparr>dictionary := fst (map_subscript [] k (dictionary s)), pending := cs\<rparr>"
  have v: "snd (map_subscript [] k (dictionary s)) = v"
    and rest: "run_checks (fst (map_subscript [] k (dictionary s))) cs = Inr m'"
    using Cons.prems(2) Cons.hyps(2) [symmetric] c by (simp_all split: if_splits)
  have "main_step False s ?s1"
    using Cons.prems(1) Cons.hyps(2) [symmetric] c v
    by (intro main_step.assert_pass [where x = v]) (simp_all add: prod_eq_iff)
  moreover have "(main_step False)\<^sup>*\<^sup>* ?s1 (?s1\<lparr>dictionary := m', pending := []\<rparr>)"
    using Cons.hyps(1) [of ?s1] Cons.prems(1) rest by simp
  ultimately show ?case by (simp add: converse_rtranclp_into_rtranclp)
qed

subsection \<open>Equivalence with the big-step model\<close>

text \<open>C9: the small-step machine and the big-step \<open>main\<close> agree: every finished run from the
  entry writes the lines and reports the failure that \<open>main\<close> of TestMain returns in the
  debug build; in the release build every finished run has written the banner and
  ``All right.'' and reports no failure.\<close>

theorem main_step_outcome:
  assumes run: "(main_step nodebug)\<^sup>*\<^sup>* main_init s" and fin: "main_final s"
  shows "main_outcome s = (if nodebug then ([main_banner, main_all_right], None) else main)"
proof -
  have inv: "main_inv nodebug s" using run by (rule main_inv_reachable)
  show ?thesis
  proof (cases "pc s")
    case Return
    with inv show ?thesis by (auto simp: main_inv_def main_outcome_def main_def)
  next
    case (Aborted line)
    with inv show ?thesis by (auto simp: main_inv_def main_outcome_def main_def)
  qed (use fin in \<open>simp_all add: main_final_def\<close>)
qed

theorem main_step_outcome_witness:
  "main_outcome \<lparr>pc = Return, dictionary = dictionary_init, pending = [],
     wcout = [main_banner, main_all_right]\<rparr> = main"
proof -
  let ?s1 = "main_init\<lparr>pc := Construct, wcout := wcout main_init @ [main_banner]\<rparr>"
  let ?s2 = "?s1\<lparr>pc := Asserts, dictionary := dictionary_init, pending := main_checks\<rparr>"
  let ?s3 = "?s2\<lparr>dictionary := dictionary_init, pending := []\<rparr>"
  let ?s4 = "?s3\<lparr>pc := AllRight\<rparr>"
  let ?s5 = "?s4\<lparr>pc := Return, wcout := wcout ?s4 @ [main_all_right]\<rparr>"
  have "main_step False main_init ?s1" by (rule main_step.banner) (simp add: main_init_def)
  moreover have "main_step False ?s1 ?s2" by (rule main_step.construct) simp
  moreover have "(main_step False)\<^sup>*\<^sup>* ?s2 ?s3"
    by (rule main_asserts_run) (simp_all add: run_checks_dictionary_init)
  moreover have "main_step False ?s3 ?s4" by (rule main_step.asserts_done) simp_all
  moreover have "main_step False ?s4 ?s5" by (rule main_step.all_right) simp
  ultimately have run: "(main_step False)\<^sup>*\<^sup>* main_init ?s5"
    by (meson converse_rtranclp_into_rtranclp rtranclp.rtrancl_into_rtrancl)
  have s5: "?s5 = \<lparr>pc = Return, dictionary = dictionary_init, pending = [],
     wcout = [main_banner, main_all_right]\<rparr>" by (simp add: main_init_def)
  have fin: "main_final ?s5" by (simp add: main_final_def)
  show ?thesis using main_step_outcome [OF run fin] unfolding s5 by simp
qed

end
