(* ===== verification/RBTree.thy ===== *)
theory RBTree
  imports StdMap "HOL-Library.Tree"
begin

text \<open>
  The node level of \<open>std::map\<close>: libstdc++ keeps the entries in a red-black tree of
  heap-allocated nodes (\<open>_Rb_tree_node\<close>), and every lookup of the program
  (\<open>operator[]\<close>, the hint search of the initializer-list constructor) starts with
  \<open>_M_lower_bound\<close>, a loop that walks down from the root. This theory models the node
  store as a map from addresses to nodes (address 0 is the null pointer), the loop as a
  partial function in the option monad (a dangling pointer, or a cycle, gives \<open>None\<close>),
  and relates a node structure to a HOL-Library \<open>tree\<close> of its entries and their
  addresses (\<open>rb_tree_at\<close>). The loop terminates on every such structure, and on a
  sorted one it returns the address of the entry that \<open>lower_bound\<close> of StdMap designates
  in the in-order sequence, or the header \<open>y\<close> (\<open>end()\<close>) when there is none (C20).
  The loop reads neither the colour nor the parent link of a node; the rotations of the
  theory RBRotate maintain the parent links.
\<close>

type_synonym addr = nat

text \<open>\<open>_Rb_tree_node<value_type>\<close>: the fields of \<open>_Rb_tree_node_base\<close> (colour,
  parent, left and right links) and the stored pair (\<open>_M_storage\<close>, whose first component
  \<open>_S_key\<close> reads). The colour is libstdc++'s \<open>enum _Rb_tree_color { _S_red = false,
  _S_black = true }\<close>. The header node, which has no stored pair, is a node of the same
  store whose pair is never read.\<close>

record ('k, 'v) rb_node =
  node_color :: bool
  node_parent :: addr
  node_left :: addr
  node_right :: addr
  node_val :: "'k \<times> 'v"

abbreviation S_red :: bool where "S_red \<equiv> False"
abbreviation S_black :: bool where "S_black \<equiv> True"

type_synonym ('k, 'v) rb_store = "addr \<Rightarrow> ('k, 'v) rb_node option"

text \<open>\<open>_M_lower_bound(__x, __y, __k)\<close>:
  \<^verbatim>\<open>while (__x != 0) if (!_M_impl._M_key_compare(_S_key(__x), __k)) __y = __x, __x = _S_left(__x);
  else __x = _S_right(__x); return iterator(__y);\<close>
  called with the root as \<open>__x\<close> and the header node (\<open>end()\<close>) as \<open>__y\<close>.\<close>

partial_function (option) M_lower_bound ::
  "('k \<Rightarrow> 'k \<Rightarrow> bool) \<Rightarrow> ('k, 'v) rb_store \<Rightarrow> addr \<Rightarrow> addr \<Rightarrow> 'k \<Rightarrow> addr option" where
  "M_lower_bound lt s x y k =
     (if x = 0 then Some y
      else case s x of
             None \<Rightarrow> None
           | Some n \<Rightarrow>
               if \<not> lt (fst (node_val n)) k then M_lower_bound lt s (node_left n) x k
               else M_lower_bound lt s (node_right n) y k)"

text \<open>\<open>rb_tree_at s x t\<close>: the nodes reachable from address \<open>x\<close> form the finite
  binary tree \<open>t\<close>, whose nodes carry each entry with its address.\<close>

inductive rb_tree_at :: "('k, 'v) rb_store \<Rightarrow> addr \<Rightarrow> ('k \<times> 'v \<times> addr) tree \<Rightarrow> bool" where
  null: "rb_tree_at s 0 Leaf"
| node: "x \<noteq> 0 \<Longrightarrow> s x = Some n \<Longrightarrow> rb_tree_at s (node_left n) l \<Longrightarrow>
         rb_tree_at s (node_right n) r \<Longrightarrow>
         rb_tree_at s x (Node l (fst (node_val n), snd (node_val n), x) r)"

code_pred (modes: i \<Rightarrow> i \<Rightarrow> o \<Rightarrow> bool, i \<Rightarrow> i \<Rightarrow> i \<Rightarrow> bool) rb_tree_at .

text \<open>The in-order entries of such a tree: the sequence the model of StdMap holds.\<close>

definition rb_entries :: "('k \<times> 'v \<times> addr) tree \<Rightarrow> ('k \<times> 'v) list" where
  "rb_entries t = map (\<lambda>(k, v, p). (k, v)) (inorder t)"

text \<open>The links of a node that the shape of the tree depends on (the stored pair and the
  two children, not the colour or the parent), and the addresses of a tree's nodes in order.\<close>

definition rb_links :: "('k, 'v) rb_store \<Rightarrow> addr \<Rightarrow> (('k \<times> 'v) \<times> addr \<times> addr) option" where
  "rb_links s a = map_option (\<lambda>n. (node_val n, node_left n, node_right n)) (s a)"

definition rb_addrs :: "('k \<times> 'v \<times> addr) tree \<Rightarrow> addr list" where
  "rb_addrs t = map (\<lambda>(k, v, a). a) (inorder t)"

lemma M_lower_bound_null [simp]: "M_lower_bound lt s 0 y k = Some y"
  by (simp add: M_lower_bound.simps)

lemma M_lower_bound_node:
  "x \<noteq> 0 \<Longrightarrow> s x = Some n \<Longrightarrow>
   M_lower_bound lt s x y k =
     (if \<not> lt (fst (node_val n)) k then M_lower_bound lt s (node_left n) x k
      else M_lower_bound lt s (node_right n) y k)"
  by (simp add: M_lower_bound.simps)

lemma M_lower_bound_inorder:
  assumes swo: "strict_weak_order lt"
  shows "rb_tree_at s x t \<Longrightarrow> sorted_keys lt (inorder t) \<Longrightarrow>
    M_lower_bound lt s x y k =
      Some (case dropWhile (\<lambda>e. lt (fst e) k) (inorder t) of [] \<Rightarrow> y | e # _ \<Rightarrow> snd (snd e))"
proof (induction arbitrary: y rule: rb_tree_at.induct)
  case (null s)
  then show ?case by simp
next
  case (node x s n l r)
  let ?P = "\<lambda>e. lt (fst e) k" and ?e = "(fst (node_val n), snd (node_val n), x)"
  have sl: "sorted_keys lt (inorder l)" and sr: "sorted_keys lt (inorder r)"
    and lx: "\<forall>e \<in> set (inorder l). lt (fst e) (fst (node_val n))"
    using node.prems by (auto simp: sorted_wrt_append)
  show ?case
  proof (cases "lt (fst (node_val n)) k")
    case False
    have "dropWhile ?P (inorder l @ ?e # inorder r) =
          (case dropWhile ?P (inorder l) of [] \<Rightarrow> ?e # inorder r | z # zs \<Rightarrow> z # zs @ ?e # inorder r)"
      using False by (intro dropWhile_append_not) simp
    moreover have "M_lower_bound lt s x y k = M_lower_bound lt s (node_left n) x k"
      using False node.hyps(1,2) by (simp add: M_lower_bound_node)
    ultimately show ?thesis
      using node.IH(1) [OF sl, of x] by (cases "dropWhile ?P (inorder l)") simp_all
  next
    case True
    have "\<forall>e \<in> set (inorder l). ?P e" using lx True swo by (auto dest: swo_trans)
    then have "dropWhile ?P (inorder l @ ?e # inorder r) = dropWhile ?P (inorder r)"
      using True by (simp add: dropWhile_append)
    then show ?thesis
      using True node.IH(2) [OF sr, of y] node.hyps(1,2)
      by (simp add: M_lower_bound_node)
  qed
qed

lemma rb_tree_at_nodeI:
  "x \<noteq> 0 \<Longrightarrow> s x = Some n \<Longrightarrow> node_val n = (k, v) \<Longrightarrow> node_left n = a \<Longrightarrow> node_right n = b \<Longrightarrow>
   rb_tree_at s a l \<Longrightarrow> rb_tree_at s b r \<Longrightarrow> rb_tree_at s x (Node l (k, v, x) r)"
  using rb_tree_at.node [of x s n l r] by simp

lemma rb_tree_at_nodes:
  "rb_tree_at s x t \<Longrightarrow> (k, v, p) \<in> set_tree t \<Longrightarrow> p \<noteq> 0 \<and> map_option node_val (s p) = Some (k, v)"
  by (induction rule: rb_tree_at.induct) auto

lemma lower_bound_rb_entries:
  "snd (lower_bound lt k (rb_entries t)) =
     map (\<lambda>(k, v, p). (k, v)) (dropWhile (\<lambda>e. lt (fst e) k) (inorder t))"
  by (simp add: lower_bound_eq rb_entries_def dropWhile_map comp_def case_prod_beta)

lemma sorted_rb_entries: "sorted_keys lt (rb_entries t) \<longleftrightarrow> sorted_keys lt (inorder t)"
  by (simp add: rb_entries_def sorted_wrt_map case_prod_beta)

subsection \<open>Termination and refinement\<close>

text \<open>The loop \<open>_M_lower_bound\<close> terminates, returning an address, on every node
  structure that forms a finite tree (no cycle, no dangling link), whatever the comparator;
  the address is the header or one of the tree's nodes.\<close>

lemma M_lower_bound_total:
  "rb_tree_at s x t \<Longrightarrow> \<exists>p. M_lower_bound lt s x y k = Some p"
proof (induction arbitrary: y rule: rb_tree_at.induct)
  case (null s)
  then show ?case by simp
next
  case (node x s n l r)
  then show ?case by (simp add: M_lower_bound_node)
qed

lemma M_lower_bound_in_tree:
  "rb_tree_at s x t \<Longrightarrow> M_lower_bound lt s x y k = Some p \<Longrightarrow> p = y \<or> p \<in> (\<lambda>e. snd (snd e)) ` set_tree t"
proof (induction arbitrary: y rule: rb_tree_at.induct)
  case (null s)
  then show ?case by simp
next
  case (node x s n l r)
  then show ?case by (fastforce simp: M_lower_bound_node split: if_splits)
qed

text \<open>The node-level loop refines \<open>lower_bound\<close> of the in-order model: on a node
  tree whose in-order entries are the entries of a sorted map model, it returns the header
  when the model's lower bound is \<open>end()\<close>, and otherwise the address of a node that
  holds exactly the entry the model's lower bound designates.\<close>

lemma M_lower_bound_lower_bound:
  assumes swo: "strict_weak_order (key_comp m)" and inv: "map_invar m"
    and at: "rb_tree_at s x t" and ent: "tree m = rb_entries t"
  shows "\<exists>p. M_lower_bound (key_comp m) s x y k = Some p \<and>
    (case snd (lower_bound (key_comp m) k (tree m)) of
       [] \<Rightarrow> p = y
     | e # _ \<Rightarrow> p \<noteq> 0 \<and> map_option node_val (s p) = Some e)"
proof -
  let ?lt = "key_comp m"
  have sorted: "sorted_keys ?lt (inorder t)"
    using inv ent by (simp add: map_invar_def sorted_rb_entries)
  note lb = M_lower_bound_inorder [OF swo at sorted, of y k]
  show ?thesis
  proof (cases "dropWhile (\<lambda>e. ?lt (fst e) k) (inorder t)")
    case Nil
    have "snd (lower_bound ?lt k (tree m)) = []" unfolding ent lower_bound_rb_entries Nil by simp
    moreover have "M_lower_bound ?lt s x y k = Some y" using lb unfolding Nil by simp
    ultimately show ?thesis by simp
  next
    case (Cons e es)
    obtain k' v p where e: "e = (k', v, p)" by (cases e)
    have "e \<in> set (inorder t)" using Cons by (metis list.set_intros(1) set_dropWhileD)
    then have "p \<noteq> 0 \<and> map_option node_val (s p) = Some (k', v)"
      using rb_tree_at_nodes [OF at, of k' v p] e by simp
    moreover have "snd (lower_bound ?lt k (tree m)) = (k', v) # map (\<lambda>(k, v, p). (k, v)) es"
      unfolding ent lower_bound_rb_entries Cons e by simp
    moreover have "M_lower_bound ?lt s x y k = Some p" using lb unfolding Cons e by simp
    ultimately show ?thesis by simp
  qed
qed

subsection \<open>Frames\<close>

text \<open>A tree read from the store stays the same tree after writes that keep the links of
  its nodes; the node-level lookup only depends on the in-order sequence of the tree.\<close>

lemma rb_addrs_simps [simp]:
  "rb_addrs Leaf = []"
  "rb_addrs (Node l (k, v, a) r) = rb_addrs l @ a # rb_addrs r"
  by (simp_all add: rb_addrs_def)

inductive_cases rb_tree_at_NodeE: "rb_tree_at s x (Node l e r)"

lemma rb_tree_at_frame:
  "rb_tree_at s x t \<Longrightarrow> \<forall>a \<in> set (rb_addrs t). rb_links s' a = rb_links s a \<Longrightarrow> rb_tree_at s' x t"
proof (induction rule: rb_tree_at.induct)
  case (null s)
  show ?case by (rule rb_tree_at.null)
next
  case (node x s n l r)
  then have "rb_links s' x = Some (node_val n, node_left n, node_right n)"
    by (simp add: rb_links_def)
  then obtain n' where "s' x = Some n'" "node_val n' = node_val n" "node_left n' = node_left n"
    "node_right n' = node_right n"
    by (auto simp: rb_links_def)
  with node show ?case
    by (intro rb_tree_at_nodeI [of x s' n']) (simp_all add: prod_eq_iff)
qed

lemma rb_tree_at_root:
  "rb_tree_at s a t \<Longrightarrow> a \<noteq> 0 \<Longrightarrow> s a \<noteq> None \<and> a \<in> set (rb_addrs t)"
  by (induction rule: rb_tree_at.induct) simp_all

lemma rb_tree_at_linksI:
  "rb_links s x = Some ((k, v), a, b) \<Longrightarrow> x \<noteq> 0 \<Longrightarrow> rb_tree_at s a l \<Longrightarrow> rb_tree_at s b r \<Longrightarrow>
   rb_tree_at s x (Node l (k, v, x) r)"
  by (rule rb_tree_at_nodeI [of x s "the (s x)"]) (auto simp: rb_links_def)

lemma M_lower_bound_same_inorder:
  assumes "strict_weak_order lt" "rb_tree_at s x t" "rb_tree_at s' x' t'" "inorder t' = inorder t"
    "sorted_keys lt (inorder t)"
  shows "M_lower_bound lt s' x' y k = M_lower_bound lt s x y k"
  using M_lower_bound_inorder [OF assms(1,2,5)] M_lower_bound_inorder [OF assms(1,3)] assms(4,5)
  by simp

end
