(* ===== verification/RBRotate.thy ===== *)
theory RBRotate
  imports RBTree "HOL-Library.Monad_Syntax"
begin

text \<open>
  The rotations of libstdc++'s red-black tree, \<open>local_Rb_tree_rotate_left\<close> and
  \<open>local_Rb_tree_rotate_right\<close> (tree.cc), the steps by which
  \<open>_Rb_tree_insert_and_rebalance\<close> and \<open>_Rb_tree_rebalance_for_erase\<close> restore the
  colouring. Every read and write of a node goes through the store of RBTree, so a dangling
  pointer makes the rotation \<open>None\<close>. The lemmas show that a left rotation succeeds when the
  header and the nodes it reads exist, and turns the nodes into the rotated tree, so it keeps
  their in-order sequence.
\<close>

subsection \<open>Node access\<close>

text \<open>A write to a field of the node at address \<open>a\<close>.\<close>

definition node_upd ::
  "('k, 'v) rb_store \<Rightarrow> addr \<Rightarrow> (('k, 'v) rb_node \<Rightarrow> ('k, 'v) rb_node) \<Rightarrow> ('k, 'v) rb_store option" where
  "node_upd s a f = do { n \<leftarrow> s a; Some (s(a \<mapsto> f n)) }"

text \<open>The child on one side: \<open>rb_child True\<close> is \<open>_M_left\<close>, \<open>rb_child False\<close> is
  \<open>_M_right\<close>; the two rotations are mirror images of each other under this exchange.\<close>

definition rb_child :: "bool \<Rightarrow> ('k, 'v) rb_node \<Rightarrow> addr" where
  "rb_child d n = (if d then node_left n else node_right n)"

definition rb_set_child :: "bool \<Rightarrow> addr \<Rightarrow> ('k, 'v) rb_node \<Rightarrow> ('k, 'v) rb_node" where
  "rb_set_child d c n = (if d then n\<lparr>node_left := c\<rparr> else n\<lparr>node_right := c\<rparr>)"

subsection \<open>Rotations\<close>

text \<open>\<open>local_Rb_tree_rotate_left(__x, __root)\<close> for \<open>d = True\<close> (and its mirror image
  \<open>local_Rb_tree_rotate_right\<close> for \<open>d = False\<close>), where \<open>__root\<close> is the header's
  parent link:
  \<^verbatim>\<open>__y = __x->_M_right; __x->_M_right = __y->_M_left;
  if (__y->_M_left != 0) __y->_M_left->_M_parent = __x;
  __y->_M_parent = __x->_M_parent;
  if (__x == __root) __root = __y;
  else if (__x == __x->_M_parent->_M_left) __x->_M_parent->_M_left = __y;
  else __x->_M_parent->_M_right = __y;
  __y->_M_left = __x; __x->_M_parent = __y;\<close>\<close>

definition Rb_tree_rotate ::
  "bool \<Rightarrow> addr \<Rightarrow> addr \<Rightarrow> ('k, 'v) rb_store \<Rightarrow> ('k, 'v) rb_store option" where
  "Rb_tree_rotate d hdr x s = do {
     nx \<leftarrow> s x;
     let y = rb_child (\<not> d) nx;
     ny \<leftarrow> s y;
     let b = rb_child d ny;
     s \<leftarrow> node_upd s x (rb_set_child (\<not> d) b);
     s \<leftarrow> (if b \<noteq> 0 then node_upd s b (\<lambda>n. n\<lparr>node_parent := x\<rparr>) else Some s);
     s \<leftarrow> node_upd s y (\<lambda>n. n\<lparr>node_parent := node_parent nx\<rparr>);
     nh \<leftarrow> s hdr;
     s \<leftarrow> (if x = node_parent nh then node_upd s hdr (\<lambda>n. n\<lparr>node_parent := y\<rparr>)
           else do {
             np \<leftarrow> s (node_parent nx);
             if x = rb_child d np then node_upd s (node_parent nx) (rb_set_child d y)
             else node_upd s (node_parent nx) (rb_set_child (\<not> d) y)
           });
     s \<leftarrow> node_upd s y (rb_set_child d x);
     node_upd s x (\<lambda>n. n\<lparr>node_parent := y\<rparr>)
   }"

subsection \<open>Rotations keep the in-order sequence\<close>

text \<open>\<open>local_Rb_tree_rotate_left\<close> at \<open>x\<close> whose right child is \<open>y\<close>: it succeeds when the
  header and the nodes it reads exist, gives \<open>x\<close> the children \<open>x->_M_left\<close> and
  \<open>y->_M_left\<close>, gives \<open>y\<close> the children \<open>x\<close> and \<open>y->_M_right\<close>, and changes the
  links of no other node than the parent of \<open>x\<close> (or only the header's root link when
  \<open>x\<close> is the root). On a tree with distinct addresses, away from the header and the
  parent, the nodes then form the rotated tree.\<close>

lemma Rb_tree_rotate_left_links:
  assumes sx: "s x = Some nx" and y: "node_right nx = y" and sy: "s y = Some ny"
    and xy: "x \<noteq> y" and sh: "s hdr = Some nh" and hxy: "hdr \<notin> {x, y}"
    and b: "node_left ny \<noteq> 0 \<Longrightarrow> s (node_left ny) \<noteq> None" and bxy: "node_left ny \<notin> {x, y, hdr}"
    and par: "x = node_parent nh \<or>
      (node_parent nx \<notin> {x, y, node_left ny} \<and> s (node_parent nx) \<noteq> None)"
  shows "\<exists>s'. Rb_tree_rotate True hdr x s = Some s' \<and>
    rb_links s' x = Some (node_val nx, node_left nx, node_left ny) \<and>
    rb_links s' y = Some (node_val ny, x, node_right ny) \<and>
    (\<forall>a. a \<noteq> x \<and> a \<noteq> y \<and> (x \<noteq> node_parent nh \<longrightarrow> a \<noteq> node_parent nx) \<longrightarrow> rb_links s' a = rb_links s a)"
  using par
  apply (cases "node_left ny = 0")
  using sx y sy xy sh b hxy bxy
  apply (auto simp: Rb_tree_rotate_def node_upd_def rb_child_def rb_set_child_def rb_links_def Let_def)
  done

lemma Rb_tree_rotate_left_tree:
  assumes at: "rb_tree_at s x (Node l (kx, vx, x) (Node rl (ky, vy, y) rr))"
    and dist: "distinct (rb_addrs (Node l (kx, vx, x) (Node rl (ky, vy, y) rr)))"
    and hdr: "hdr \<noteq> 0" "s hdr \<noteq> None" "hdr \<notin> set (rb_addrs (Node l (kx, vx, x) (Node rl (ky, vy, y) rr)))"
    and par: "x = node_parent (the (s hdr)) \<or>
      (node_parent (the (s x)) \<notin> set (rb_addrs (Node l (kx, vx, x) (Node rl (ky, vy, y) rr))) \<and>
       node_parent (the (s x)) \<noteq> 0 \<and> s (node_parent (the (s x))) \<noteq> None)"
  shows "\<exists>s'. Rb_tree_rotate True hdr x s = Some s' \<and>
    rb_tree_at s' y (Node (Node l (kx, vx, x) rl) (ky, vy, y) rr)"
proof -
  from at obtain nx where x0: "x \<noteq> 0" and sx: "s x = Some nx" and vx: "node_val nx = (kx, vx)"
    and L: "rb_tree_at s (node_left nx) l" and R: "rb_tree_at s (node_right nx) (Node rl (ky, vy, y) rr)"
    by (auto elim: rb_tree_at_NodeE)
  from R obtain ny where y0: "y \<noteq> 0" and y: "node_right nx = y" and sy: "s y = Some ny"
    and vy: "node_val ny = (ky, vy)"
    and RL: "rb_tree_at s (node_left ny) rl" and RR: "rb_tree_at s (node_right ny) rr"
    by (auto elim: rb_tree_at_NodeE)
  obtain nh where sh: "s hdr = Some nh" using hdr by auto
  have b: "node_left ny \<noteq> 0 \<Longrightarrow> s (node_left ny) \<noteq> None \<and> node_left ny \<in> set (rb_addrs rl)"
    using rb_tree_at_root [OF RL] by simp
  have bxy: "node_left ny \<notin> {x, y, hdr}"
    using b dist hdr x0 y0 by (cases "node_left ny = 0") auto
  have par': "x = node_parent nh \<or> (node_parent nx \<notin> {x, y, node_left ny} \<and> s (node_parent nx) \<noteq> None)"
    using par b sx sh by auto
  obtain s' where rot: "Rb_tree_rotate True hdr x s = Some s'"
    and lx: "rb_links s' x = Some (node_val nx, node_left nx, node_left ny)"
    and ly: "rb_links s' y = Some (node_val ny, x, node_right ny)"
    and fr: "\<forall>a. a \<noteq> x \<and> a \<noteq> y \<and> (x \<noteq> node_parent nh \<longrightarrow> a \<noteq> node_parent nx) \<longrightarrow> rb_links s' a = rb_links s a"
    using Rb_tree_rotate_left_links [OF sx y sy _ sh _ _ bxy par'] dist hdr b by auto
  have keep: "\<forall>a \<in> set (rb_addrs l) \<union> set (rb_addrs rl) \<union> set (rb_addrs rr). rb_links s' a = rb_links s a"
  proof
    fix a assume "a \<in> set (rb_addrs l) \<union> set (rb_addrs rl) \<union> set (rb_addrs rr)"
    then have "a \<noteq> x" "a \<noteq> y" "x \<noteq> node_parent nh \<longrightarrow> a \<noteq> node_parent nx"
      using dist par sx sh by auto
    with fr show "rb_links s' a = rb_links s a" by blast
  qed
  have "rb_tree_at s' x (Node l (kx, vx, x) rl)"
    using lx vx x0 rb_tree_at_frame [OF L] rb_tree_at_frame [OF RL] keep by (auto intro: rb_tree_at_linksI)
  then have "rb_tree_at s' y (Node (Node l (kx, vx, x) rl) (ky, vy, y) rr)"
    using ly vy y0 rb_tree_at_frame [OF RR] keep by (auto intro: rb_tree_at_linksI)
  with rot show ?thesis by blast
qed

end
