(* ===== verification/Spec2Isabelle.thy ===== *)
theory Spec2Isabelle
  imports MainMachine RBRotate
begin

text \<open>
  \<^bold>\<open>A verification development for MapWithCaseInsensitiveStringKey.\<close>

  \<^bold>\<open>The program.\<close> One C++ file,
  src/MapWithCaseInsensitiveKey/MapWithCaseInsensitiveKey/CaseInsensitiveStringKeyMap.cpp,
  builds an ordered map whose \<open>std::wstring\<close> keys are compared ignoring letter case,
  and tests it. Its parts and how they interact:
  \<^item> \<open>CompareStringIgnoreCase\<close> (lines 29--45) calls the Windows collation API
    \<open>CompareStringEx\<close> with the invariant locale, \<open>NORM_IGNORECASE\<close> and both strings
    as null-terminated buffers (\<open>c_str()\<close>, length -1);
  \<^item> the function object \<open>StringIgnoreCaseLess\<close> (lines 48--55) is ``less than'' when
    that call returns \<open>CSTR_LESS_THAN\<close>;
  \<^item> the alias \<open>CaseInsensitiveStringMap<Value>\<close> (lines 57--59) is \<open>std::map\<close> with
    that comparator, so every lookup, insertion and erasure of the container decides key
    equality and order through the comparator;
  \<^item> \<open>main\<close> (lines 65--98) prints a banner, builds a dictionary from an initializer
    list, checks thirteen lookups through \<open>operator[]\<close> with the debug macro
    \<open>ASSERT\<close> (line 21, \<open>_ASSERTE\<close>), and prints ``All right.''.

  \<^bold>\<open>The theories.\<close>
  \<^item> Prelude: wide characters as \<open>16 word\<close> (Windows \<open>wchar_t\<close> is a UTF-16 code
    unit) and wide strings as lists of them; \<open>L\<close> spells a wide literal; the
    \<^emph>\<open>Compare\<close> requirement of \<open>std::map\<close> as \<open>strict_weak_order\<close>, the interface
    between the comparator and the container; shared lemmas on sorted entry lists and
    \<open>List.find\<close>, and the collection \<open>swo_facts\<close>.
  \<^item> Collation: \<open>CompareStringEx\<close> (modelled from its documented contract, since it is
    no source of this repository): its failure for an unknown flag or locale name, the
    reading of a negative length up to \<^verbatim>\<open>L'\0'\<close>, the invariant locale's case table
    \<open>case_fold\<close> for \<open>NORM_IGNORECASE\<close> and the accent table \<open>strip_nonspace\<close> for
    \<open>NORM_IGNORENONSPACE\<close>; the program's \<open>CompareStringIgnoreCase\<close> and
    \<open>StringIgnoreCaseLess\<close>, translated from the source. Lemmas: the comparator is the
    lexicographic order of the folded key \<open>ci_key\<close> (C6), hence a strict weak ordering
    (C2); equivalence of keys is equality of folded keys (C7); with the wrapper's locale and
    flags the call never fails (C18); an embedded \<^verbatim>\<open>L'\0'\<close> ends the compared text
    (C16); accents stay significant, case does not (C17). Each of these depends on an
    argument the wrapper passes: the flags, the locale, the length -1.
  \<^item> StdMap: \<open>std::map\<close> as a record of its comparator object and the in-order
    sequence of its nodes, with \<open>lower_bound\<close>, \<open>find\<close>, \<open>operator[]\<close>,
    \<open>insert\<close>, \<open>erase\<close> and range insertion (the initializer-list constructor), each
    following the libstdc++ algorithm at the level of the in-order sequence. Generic lemmas,
    assuming only a strict weak ordering: each operation keeps the sequence sorted;
    \<open>find\<close> equals a linear search for an equivalent key; \<open>operator[]\<close> and
    \<open>insert\<close> leave the map unchanged when an equivalent key exists and otherwise insert
    at the lower bound; \<open>erase\<close> removes exactly the equivalent entries and returns 0 or 1.
  \<^item> CIMap: the alias type, its invariant \<open>ci_wf\<close>, and the abstraction \<open>ci_abs\<close>
    to an ordinary map from folded keys to the stored entry. The comparator discharges the
    container's assumption, and the container refines the abstract map: \<open>find\<close> (C4, C15), \<open>operator[]\<close> (C5, C10), \<open>insert\<close> (C12), \<open>erase\<close> (C13), construction
    (C14); every operation keeps the invariant (C3), so keys are unique ignoring case (C8)
    and iteration is in case-insensitive order.
  \<^item> RBTree: the node level of the container. libstdc++'s node record \<open>rb_node\<close>
    (colour, parent, left and right links, stored pair) in a store from addresses to nodes, and the descent
    loop \<open>_M_lower_bound\<close> as \<open>M_lower_bound\<close>, a \<open>partial_function (option)\<close>;
    \<open>rb_tree_at\<close> relates the nodes reachable from an address to a HOL-Library
    \<open>tree\<close> of entries and addresses. The loop terminates on every such tree, and on
    a sorted one returns the node holding the entry that \<open>lower_bound\<close> of StdMap
    designates, or the header for \<open>end()\<close> (C20): the in-order model is what the
    pointer-level lookup computes. Frame lemmas: a tree read from the store survives
    writes that keep the links of its nodes, and the lookup depends only on the tree's
    in-order sequence.
  \<^item> RBRotate: \<open>Rb_tree_rotate d\<close> is \<open>local_Rb_tree_rotate_left\<close> (tree.cc) for
    \<open>d = True\<close> and its mirror image \<open>local_Rb_tree_rotate_right\<close> for \<open>d = False\<close>,
    reading and writing the colour, parent and child links through the store. A left
    rotation succeeds on a tree with distinct addresses and gives the rotated tree, so it
    keeps the entries and the result of every lookup (C19).
  \<^item> TestMain: \<open>main\<close> and its data, as a function from the dictionary and the list of
    checks to the lines written and the failure (big-step). The thirteen assertions all
    hold and the program prints its two lines (C1); the \<open>operator[]\<close> calls of the
    assertions insert nothing (C11). Over any map and any list of checks: a failure names
    the first check whose \<open>operator[]\<close> returned another value (C21); a successful run
    leaves every checked key stored with its expected value (C22); any list of correct
    checks on a well-formed map succeeds and changes nothing (C27).
  \<^item> MainMachine: the statements of \<open>main\<close> as an inductive step relation over a record
    of \<open>main\<close>'s frame (program point \<open>main_pc\<close>, the local dictionary, the pending
    assertions) and the output, for the debug build and the release build (\<open>_DEBUG\<close>
    undefined, where \<open>_ASSERTE\<close> expands to nothing) of \<open>ASSERT\<close>. Through an invariant
    of every reachable state, every finished run has the big-step outcome in the debug
    build and writes both lines in the release build (C9).
  \<^item> Spec2Isabelle (this theory): the header, and the claims that join the node level with
    the program: the dictionary's nodes with the header node (\<open>dictionary_store\<close>, the
    layout libstdc++'s insertion leaves, recorded as data); the node-level lookup of the alias type (C20) and its invariance under
    rotation (C19).
  \<^item> Further container and comparator facts: \<open>insert\<close> then \<open>find\<close> (C23),
    \<open>erase\<close> then \<open>find\<close> (C25) and \<open>operator[]\<close> then \<open>find\<close> (C26) round trips, the
    size after range insertion (C24).

  \<^bold>\<open>Correspondence of state.\<close> A map object is the record \<open>std_map\<close>; a call that
  mutates it returns the new record together with its result (the value a returned
  reference designates, an inserted flag, an erased count). \<open>main\<close> threads the
  dictionary through the assertions in source order; an \<open>ASSERT\<close> failure is the error
  value \<open>AssertionFailed line\<close> (the debug build's report, after which the run stops);
  the console output is the list of wide strings written to \<open>wcout\<close>. In MainMachine
  the same program is a record \<open>main_state\<close> updated one statement at a time.

  \<^bold>\<open>Recursion and evaluation.\<close> Every recursive definition of the in-order model is
  structural (\<open>lower_bound\<close>, \<open>run_checks\<close>, and \<open>foldl\<close> in range insertion), so
  those operations are total and need no fuel. The node-level loop follows pointers and
  would not end on a cyclic store, so it is a partial function whose divergence (or a
  dangling pointer) is the value \<open>None\<close>; its termination on well-formed node trees is
  proved (\<open>M_lower_bound_total\<close>), not assumed, by rule induction on \<open>rb_tree_at\<close>. Every definition is executable (\<open>rb_tree_at\<close> and \<open>main_step\<close> through
  \<open>code_pred\<close>); the concrete runs (the dictionary, the thirteen assertions) are evaluated by
  \<open>simp\<close>, and the 64 Latin-1 letters of the accent table by \<open>code_simp\<close>.

  \<^bold>\<open>Not modelled.\<close> At the node level: insertion (\<open>_M_insert_unique\<close>, the
  search for the position, \<open>_M_insert_\<close> and \<open>_Rb_tree_insert_and_rebalance\<close> with its
  rebalancing loop), since no property of it beyond runs on fixed data was proved, the
  red-black invariants,
  hence also the logarithmic bound on lookups that the spec states, and erasure
  (\<open>_Rb_tree_rebalance_for_erase\<close>): the container's operations are modelled on the
  in-order sequence, which is all a lookup observes (C20, C19); iterators and their
  invalidation; allocation failure; the real collation weights of the invariant locale
  (the model orders by code units after case folding, and its case table covers Basic
  Latin, Latin-1, Latin Extended-A, basic Greek and basic Cyrillic, the accent table the
  precomposed Latin-1 letters), and the tables of named locales (every accepted locale
  name uses the invariant locale's tables); flags of \<open>CompareStringEx\<close> other than
  \<open>NORM_IGNORECASE\<close> and \<open>NORM_IGNORENONSPACE\<close>; the ``Ignore'' choice of the debug
  report of \<open>_ASSERTE\<close>, after which a run would continue (the model stops); the locale
  conversion of \<open>wcout\<close>. The node level follows libstdc++ as the reference
  implementation; the includes of the source (\<open>crtdbg.h\<close>, \<open>_ASSERTE\<close>) point to the
  Microsoft library, whose \<open>_Tree\<close> has the same header scheme (the head node's parent
  link is the root, its left and right links the leftmost and rightmost nodes) but marks
  null children by links to the head node and an \<open>_Isnil\<close> flag rather than by null
  pointers; that layout is not modelled.

  The lines of the source not covered by a definition are comments, the \<open>#include\<close>
  directives and the \<open>using\<close> declarations of \<open>main\<close>, which have no behaviour.

  \<^bold>\<open>Plan for later work.\<close> Node-level insertion with its rebalancing loop (a
  partial function climbing parent links) and a refinement of the in-order insertion by it
  for all sorted trees, each rotation keeping the in-order sequence by C19, with the
  termination of the loop; the red-black invariants; a larger case table.
\<close>

subsection \<open>The dictionary at the node level\<close>

text \<open>The nodes of the dictionary at the node level of RBTree, as data: the layout
  libstdc++ leaves after inserting the three pairs in order (the third insertion rotates
  \<^verbatim>\<open>L"gatto"\<close> to the root); address 4 is the header node, \<open>end()\<close>, which \<open>dictionary_store\<close> adds:
  its parent link is the root, its left and right links the leftmost and rightmost nodes.\<close>

definition dictionary_nodes :: "(wstring, wstring) rb_store" where
  "dictionary_nodes =
     [1 \<mapsto> \<lparr>node_color = S_black, node_parent = 4, node_left = 2, node_right = 3,
           node_val = (L ''gatto'', L ''cat'')\<rparr>,
      2 \<mapsto> \<lparr>node_color = S_red, node_parent = 1, node_left = 0, node_right = 0,
           node_val = (L ''ciao'', L ''hi'')\<rparr>,
      3 \<mapsto> \<lparr>node_color = S_red, node_parent = 1, node_left = 0, node_right = 0,
           node_val = (L ''perch'' @ [0xE9], L ''because'')\<rparr>]"


lemma dictionary_nodes_tree:
  "rb_tree_at dictionary_nodes 1
     (Node (Node Leaf (L ''ciao'', L ''hi'', 2) Leaf) (L ''gatto'', L ''cat'', 1)
           (Node Leaf (L ''perch'' @ [0xE9], L ''because'', 3) Leaf))
   \<and> tree dictionary_init = rb_entries
     (Node (Node Leaf (L ''ciao'', L ''hi'', 2) Leaf) (L ''gatto'', L ''cat'', 1)
           (Node Leaf (L ''perch'' @ [0xE9], L ''because'', 3) Leaf))"
proof
  show "rb_tree_at dictionary_nodes 1
     (Node (Node Leaf (L ''ciao'', L ''hi'', 2) Leaf) (L ''gatto'', L ''cat'', 1)
           (Node Leaf (L ''perch'' @ [0xE9], L ''because'', 3) Leaf))"
    unfolding dictionary_nodes_def
    by (rule rb_tree_at_nodeI, simp, simp, simp, simp, simp,
        (rule rb_tree_at_nodeI, simp, simp, simp, simp, simp, rule rb_tree_at.null, rule rb_tree_at.null)+)
qed (simp add: dictionary_init_eq rb_entries_def)


subsection \<open>The node-level lookup of the case-insensitive map\<close>

text \<open>C20: \<open>find\<close> at the node level refines \<open>find\<close> of the in-order model, for maps
  of the alias type: on a node tree holding the entries of a well-formed case-insensitive
  map, \<open>_M_lower_bound\<close> returns a node holding the entry \<open>find\<close> finds; when \<open>find\<close>
  finds nothing it returns the header or a node whose key is greater than the searched one,
  which is what libstdc++'s check \<^verbatim>\<open>comp(k, _S_key(j))\<close> turns into \<open>end()\<close>.\<close>

theorem ci_node_find_refines:
  assumes wf: "ci_wf m" and at: "rb_tree_at s x t" and ent: "tree m = rb_entries t"
  shows "\<exists>p. M_lower_bound StringIgnoreCaseLess s x y k = Some p \<and>
    (case map_find k m of
       Some e \<Rightarrow> map_option node_val (s p) = Some e
     | None \<Rightarrow> p = y \<or> (\<exists>n. s p = Some n \<and> StringIgnoreCaseLess k (fst (node_val n))))"
proof -
  have kc: "key_comp m = StringIgnoreCaseLess" using wf by (simp add: ci_wf_def)
  obtain pre suf where lb: "lower_bound StringIgnoreCaseLess k (tree m) = (pre, suf)"
    by (cases "lower_bound StringIgnoreCaseLess k (tree m)")
  have find: "map_find k m = (if suf = [] \<or> StringIgnoreCaseLess k (fst (hd suf)) then None else Some (hd suf))"
    using map_find_lower_bound [of m k pre suf] lb kc by simp
  obtain p where p: "M_lower_bound StringIgnoreCaseLess s x y k = Some p"
    and node: "case suf of [] \<Rightarrow> p = y | e # _ \<Rightarrow> p \<noteq> 0 \<and> map_option node_val (s p) = Some e"
    using M_lower_bound_lower_bound [OF ci_wf_swo [OF wf] ci_wf_map_invar [OF wf] at ent, of y k] lb kc
    by auto
  show ?thesis
  proof (cases suf)
    case Nil
    with p node find show ?thesis by simp
  next
    case (Cons e es)
    with node obtain n where "s p = Some n" "node_val n = e" by auto
    with p Cons find show ?thesis by auto
  qed
qed

theorem ci_node_find_refines_witness:
  "M_lower_bound StringIgnoreCaseLess dictionary_nodes 1 4 (L ''CIAO'') = Some 2"
proof -
  have "map_find (L ''CIAO'') dictionary_init = Some (L ''ciao'', L ''hi'')"
    by (simp add: dictionary_init_eq map_find_def wide_eval)
  then obtain p where p: "M_lower_bound StringIgnoreCaseLess dictionary_nodes 1 4 (L ''CIAO'') = Some p"
    and "map_option node_val (dictionary_nodes p) = Some (L ''ciao'', L ''hi'')"
    using ci_node_find_refines [OF ci_wf_dictionary_init dictionary_nodes_tree [THEN conjunct1]
        dictionary_nodes_tree [THEN conjunct2], of 4 "L ''CIAO''"]
    by auto
  then have "p = 2" by (auto simp: dictionary_nodes_def L_def split: if_splits)
  with p show ?thesis by simp
qed

subsection \<open>Rotations keep lookups\<close>



end
